theory Spec2Isabelle
  imports Complex_Main
begin

section \<open>Data model\<close>

subsection \<open>Dates, strings and floats\<close>

text \<open>
  A calendar date is its proleptic Gregorian ordinal (Python's \<open>date.toordinal()\<close>), so
  \<open>(a - b).days\<close> is the difference of two ordinals and \<open>a + timedelta(days=n)\<close> is
  \<open>a + n\<close>. Every timestamp of the program is produced with the format \<open>%Y-%m-%d\<close> or
  from a date picker, hence lies at midnight, and is identified with its date.
\<close>

type_synonym date = int

text \<open>\<open>pd.date_range(start, end, freq='D')\<close>: every day from start to end, both included.\<close>

definition date_range :: "date \<Rightarrow> date \<Rightarrow> date list" where
  "date_range start end = [start..end]"

text \<open>
  A Python string is the list of its code points. \<open>ascii\<close> reads an ASCII literal.
\<close>

type_synonym pystr = "nat list"

definition ascii :: "string \<Rightarrow> pystr" where
  "ascii s = map of_char s"

text \<open>The code points that \<open>str.isspace\<close> accepts, which \<open>str.strip()\<close> removes.\<close>

definition isspace :: "nat \<Rightarrow> bool" where
  "isspace c \<longleftrightarrow>
     (9 \<le> c \<and> c \<le> 13) \<or> (28 \<le> c \<and> c \<le> 32) \<or> c = 133 \<or> c = 160 \<or> c = 5760 \<or>
     (8192 \<le> c \<and> c \<le> 8202) \<or> c = 8232 \<or> c = 8233 \<or> c = 8239 \<or> c = 8287 \<or> c = 12288"

definition strip :: "pystr \<Rightarrow> pystr" where
  "strip s = rev (dropWhile isspace (rev (dropWhile isspace s)))"

fun startswith :: "pystr \<Rightarrow> pystr \<Rightarrow> bool" where
  "startswith [] s = True"
| "startswith (p # ps) [] = False"
| "startswith (p # ps) (c # cs) = (p = c \<and> startswith ps cs)"

text \<open>
  \<open>split_first sep s\<close> is \<open>s.split(sep)[0]\<close> for a non-empty separator: the part of
  \<open>s\<close> before the first occurrence of \<open>sep\<close>, the whole of \<open>s\<close> when there is none.
  \<open>split\<close> always returns at least one piece, so the index 0 never raises.
\<close>

fun split_first :: "pystr \<Rightarrow> pystr \<Rightarrow> pystr" where
  "split_first sep [] = []"
| "split_first sep (c # cs) =
     (if startswith sep (c # cs) then [] else c # split_first sep cs)"

text \<open>The separator \<open>' - '\<close> between a code and a name.\<close>

definition dash_sep :: pystr where
  "dash_sep = [32, 45, 32]"

text \<open>
  A binary64 value: a finite one is modelled by the real number it denotes (rounding is
  not modelled), next to the two infinities and NaN, which is also pandas' missing value.
\<close>

datatype pyfloat = Fin real | PInf | NInf | NaN

fun fadd :: "pyfloat \<Rightarrow> pyfloat \<Rightarrow> pyfloat" where
  "fadd NaN y = NaN"
| "fadd x NaN = NaN"
| "fadd PInf NInf = NaN"
| "fadd NInf PInf = NaN"
| "fadd PInf y = PInf"
| "fadd x PInf = PInf"
| "fadd NInf y = NInf"
| "fadd x NInf = NInf"
| "fadd (Fin a) (Fin b) = Fin (a + b)"

text \<open>
  The \<open>'sum'\<close> aggregation of pandas skips missing values and starts from 0. Finite
  values are added as reals: the rounding of binary64 and the wrap-around of a column of
  64-bit integers are not modelled.
\<close>

definition agg_sum :: "pyfloat list \<Rightarrow> pyfloat" where
  "agg_sum xs = foldl fadd (Fin 0) (filter (\<lambda>x. x \<noteq> NaN) xs)"

definition fillna0 :: "pyfloat \<Rightarrow> pyfloat" where
  "fillna0 x = (if x = NaN then Fin 0 else x)"

subsection \<open>Transaction rows and daily series\<close>

text \<open>
  One row of the frame \<open>df\<close> that \<open>load_data\<close> returns. \<open>sale_date\<close> is the parsed
  sale-date column (\<open>None\<close> is \<open>NaT\<close>), \<open>quantity\<close> the quantity column, \<open>amount\<close> the
  numeric net-amount column; the code and name columns hold the text \<open>astype(str)\<close> gives.
\<close>

record row =
  sale_date :: "date option"
  quantity :: pyfloat
  amount :: pyfloat
  dept_code :: pystr
  dept_name :: pystr
  order_code :: pystr
  order_name :: pystr
  product_code :: pystr
  product_name :: pystr

text \<open>One row of a daily frame: the date, the quantity sum and the net-amount sum.\<close>

record entry =
  day :: date
  qty :: pyfloat
  amt :: pyfloat

section \<open>Daily aggregation\<close>

text \<open>
  \<open>df.groupby(sale_date).agg({quantity: 'sum', amount: 'sum'}).reset_index()\<close>: one row
  for each distinct key in ascending order; rows whose key is \<open>NaT\<close> belong to no group.
\<close>

definition group_keys :: "row list \<Rightarrow> date list" where
  "group_keys df = sort (remdups (List.map_filter sale_date df))"

definition groupby_sum :: "row list \<Rightarrow> entry list" where
  "groupby_sum df =
     map (\<lambda>d. \<lparr>day = d,
               qty = agg_sum (map quantity (filter (\<lambda>r. sale_date r = Some d) df)),
               amt = agg_sum (map amount (filter (\<lambda>r. sale_date r = Some d) df))\<rparr>)
         (group_keys df)"

text \<open>
  \<open>sort_values(date).reset_index(drop=True)\<close>, as a stable sort. (The library's default
  sort may reorder rows of equal date; the frames sorted here have distinct dates.)
\<close>

definition sort_values :: "entry list \<Rightarrow> entry list" where
  "sort_values daily = sort_key day daily"

text \<open>\<open>.min()\<close> and \<open>.max()\<close> of a non-empty date column.\<close>

definition col_min :: "date list \<Rightarrow> date" where
  "col_min ds = fold min (tl ds) (hd ds)"

definition col_max :: "date list \<Rightarrow> date" where
  "col_max ds = fold max (tl ds) (hd ds)"

text \<open>
  \<open>date_df.merge(daily, on=date, how='left')\<close>: for each date of the left frame, in
  order, the rows of \<open>daily\<close> with that date, or one row of missing values when there is
  none.
\<close>

definition merge_cell :: "entry list \<Rightarrow> date \<Rightarrow> entry list" where
  "merge_cell daily d =
     (case filter (\<lambda>e. day e = d) daily of
        [] \<Rightarrow> [\<lparr>day = d, qty = NaN, amt = NaN\<rparr>]
      | ms \<Rightarrow> ms)"

definition merge_left :: "date list \<Rightarrow> entry list \<Rightarrow> entry list" where
  "merge_left all_dates daily = concat (map (merge_cell daily) all_dates)"

definition fillna_entry :: "entry \<Rightarrow> entry" where
  "fillna_entry e = e\<lparr>qty := fillna0 (qty e), amt := fillna0 (amt e)\<rparr>"

text \<open>
  The block that completes the missing days, written three times in the source
  (in \<open>load_data\<close>, in \<open>filter_by_product\<close> and inline for data without product columns).
\<close>

definition fill_missing_days :: "entry list \<Rightarrow> entry list" where
  "fill_missing_days daily =
     (if length daily > 0 then
        let min_date = col_min (map day daily);
            max_date = col_max (map day daily);
            all_dates = date_range min_date max_date;
            merged = merge_left all_dates daily
        in sort_values (map fillna_entry merged)
      else daily)"

text \<open>Grouping, renaming the columns, sorting and completing the missing days.\<close>

definition daily_aggregate :: "row list \<Rightarrow> entry list" where
  "daily_aggregate df = fill_missing_days (sort_values (groupby_sum df))"

section \<open>Category labels\<close>

text \<open>
  The sentinels of the three menus ("all departments", "all order methods", "all
  products"), as the code points of the source's literals.
\<close>

definition all_departments :: pystr where
  "all_departments = [20840, 12390, 12398, 37096, 38272]"

definition all_order_methods :: pystr where
  "all_order_methods = [20840, 12390, 12398, 21463, 27880, 26041, 27861]"

definition all_products :: pystr where
  "all_products = [20840, 12390, 12398, 21830, 21697]"

text \<open>The label columns that \<open>load_data\<close> adds: stripped code, \<open>' - '\<close>, stripped name.\<close>

definition dept_label :: "row \<Rightarrow> pystr" where
  "dept_label r = strip (dept_code r) @ dash_sep @ strip (dept_name r)"

definition order_label :: "row \<Rightarrow> pystr" where
  "order_label r = strip (order_code r) @ dash_sep @ strip (order_name r)"

definition product_label :: "row \<Rightarrow> pystr" where
  "product_label r = strip (product_code r) @ dash_sep @ strip (product_name r)"

text \<open>\<open>Series.unique().tolist()\<close>: the distinct values in order of first appearance.\<close>

fun unique :: "pystr list \<Rightarrow> pystr list" where
  "unique [] = []"
| "unique (x # xs) = x # unique (filter (\<lambda>y. y \<noteq> x) xs)"

subsection \<open>Reading a code as a number\<close>

datatype exn = ValueError | OverflowError

text \<open>
  \<open>int(x)\<close> for a float \<open>x\<close>: truncation toward zero; an infinity raises
  \<open>OverflowError\<close>, NaN raises \<open>ValueError\<close>.
\<close>

fun py_int :: "pyfloat \<Rightarrow> exn + int" where
  "py_int (Fin x) = Inr (if 0 \<le> x then \<lfloor>x\<rfloor> else \<lceil>x\<rceil>)"
| "py_int PInf = Inl OverflowError"
| "py_int NInf = Inl OverflowError"
| "py_int NaN = Inl ValueError"

text \<open>
  \<open>extract_code\<close>, the sort key. The builtin \<open>float\<close> is the parameter \<open>float_of\<close>
  (\<open>None\<close> where it raises \<open>ValueError\<close>). The handler catches \<open>ValueError\<close> and
  \<open>IndexError\<close> only, so an \<open>OverflowError\<close> leaves the function.
\<close>

definition extract_code :: "(pystr \<Rightarrow> pyfloat option) \<Rightarrow> pystr \<Rightarrow> exn + int" where
  "extract_code float_of item =
     (let code_str = strip (split_first dash_sep item)
      in case float_of code_str of
           None \<Rightarrow> Inr 0
         | Some x \<Rightarrow>
             (case py_int x of
                Inl ValueError \<Rightarrow> Inr 0
              | Inl OverflowError \<Rightarrow> Inl OverflowError
              | Inr n \<Rightarrow> Inr n))"

text \<open>The keys of all items, in order; the first exception ends the computation.\<close>

fun keyed :: "(pystr \<Rightarrow> exn + int) \<Rightarrow> pystr list \<Rightarrow> exn + (int \<times> pystr) list" where
  "keyed key [] = Inr []"
| "keyed key (x # xs) =
     (case key x of
        Inl e \<Rightarrow> Inl e
      | Inr k \<Rightarrow> (case keyed key xs of Inl e \<Rightarrow> Inl e | Inr ks \<Rightarrow> Inr ((k, x) # ks)))"

text \<open>\<open>sorted(items, key=key)\<close>: a stable sort by the key.\<close>

definition sorted_by :: "(pystr \<Rightarrow> exn + int) \<Rightarrow> pystr list \<Rightarrow> exn + pystr list" where
  "sorted_by key items =
     (case keyed key items of
        Inl e \<Rightarrow> Inl e
      | Inr ks \<Rightarrow> Inr (map snd (sort_key fst ks)))"

definition sort_by_code ::
  "(pystr \<Rightarrow> pyfloat option) \<Rightarrow> pystr list \<Rightarrow> bool \<Rightarrow> exn + pystr list" where
  "sort_by_code float_of item_list is_first_item_all =
     (let all_item = (if is_first_item_all then (if item_list \<noteq> [] then hd item_list else [])
                      else []);
          code_items = (if is_first_item_all
                        then (if length item_list > 1 then tl item_list else [])
                        else item_list)
      in case sorted_by (extract_code float_of) code_items of
           Inl e \<Rightarrow> Inl e
         | Inr sorted_code_items \<Rightarrow>
             Inr (if is_first_item_all then [all_item] @ sorted_code_items
                  else sorted_code_items))"

subsection \<open>An instance of the builtin float on ASCII literals\<close>

text \<open>
  \<open>py_float\<close> models \<open>float(s)\<close> for the literals used as examples below: surrounding
  whitespace, a sign, \<open>inf\<close>, \<open>infinity\<close> and \<open>nan\<close> in any case, and decimal literals
  with an optional fraction and exponent. Digit-group underscores, non-ASCII digits,
  rounding to binary64 and overflow to infinity are not covered. The general theorems
  hold for every \<open>float_of\<close>; this instance only serves to run examples.
\<close>

definition is_digit :: "nat \<Rightarrow> bool" where
  "is_digit c \<longleftrightarrow> 48 \<le> c \<and> c \<le> 57"

definition lower :: "nat \<Rightarrow> nat" where
  "lower c = (if 65 \<le> c \<and> c \<le> 90 then c + 32 else c)"

definition digits_value :: "pystr \<Rightarrow> nat" where
  "digits_value ds = foldl (\<lambda>acc c. 10 * acc + (c - 48)) 0 ds"

definition parse_mantissa :: "pystr \<Rightarrow> (real \<times> pystr) option" where
  "parse_mantissa s =
     (let ip = takeWhile is_digit s; r1 = dropWhile is_digit s
      in case r1 of
           [] \<Rightarrow> (if ip = [] then None else Some (real (digits_value ip), r1))
         | c # r2 \<Rightarrow>
             (if c = 46 then
                (let fp = takeWhile is_digit r2; r3 = dropWhile is_digit r2
                 in if ip = [] \<and> fp = [] then None
                    else Some (real (digits_value ip)
                               + real (digits_value fp) / 10 ^ length fp, r3))
              else if ip = [] then None else Some (real (digits_value ip), r1)))"

definition parse_exponent :: "pystr \<Rightarrow> int option" where
  "parse_exponent s =
     (case s of
        [] \<Rightarrow> Some 0
      | c # r \<Rightarrow>
          (if lower c = 101 then
             (let neg = (r \<noteq> [] \<and> hd r = 45);
                  ds = (if r \<noteq> [] \<and> (hd r = 43 \<or> hd r = 45) then tl r else r)
              in if ds \<noteq> [] \<and> list_all is_digit ds
                 then Some (if neg then - int (digits_value ds) else int (digits_value ds))
                 else None)
           else None))"

definition py_float :: "pystr \<Rightarrow> pyfloat option" where
  "py_float s =
     (let t = strip s;
          neg = (t \<noteq> [] \<and> hd t = 45);
          u = (if t \<noteq> [] \<and> (hd t = 43 \<or> hd t = 45) then tl t else t);
          l = map lower u
      in if l = ascii ''inf'' \<or> l = ascii ''infinity'' then Some (if neg then NInf else PInf)
         else if l = ascii ''nan'' then Some NaN
         else (case parse_mantissa u of
                 None \<Rightarrow> None
               | Some (m, rest) \<Rightarrow>
                   (case parse_exponent rest of
                      None \<Rightarrow> None
                    | Some e \<Rightarrow>
                        (let v = (if 0 \<le> e then m * 10 ^ nat e else m / 10 ^ nat (- e))
                         in Some (Fin (if neg then - v else v))))))"

section \<open>Filters\<close>

definition filter_by_department :: "row list \<Rightarrow> pystr list \<Rightarrow> row list" where
  "filter_by_department df selected_departments =
     (if selected_departments = [] \<or> length selected_departments = 0
         \<or> all_departments \<in> set selected_departments
      then df
      else
        (let department_codes = map (split_first dash_sep) selected_departments
         in filter (\<lambda>r. strip (dept_code r) \<in> set department_codes) df))"

definition filter_by_order_method :: "row list \<Rightarrow> pystr list \<Rightarrow> row list" where
  "filter_by_order_method df selected_order_methods =
     (if selected_order_methods = [] \<or> length selected_order_methods = 0
         \<or> all_order_methods \<in> set selected_order_methods
      then df
      else
        (let order_method_codes = map (split_first dash_sep) selected_order_methods
         in filter (\<lambda>r. strip (order_code r) \<in> set order_method_codes) df))"

definition filter_by_product :: "row list \<Rightarrow> pystr list \<Rightarrow> entry list" where
  "filter_by_product df selected_products =
     (let daily_data =
            (if selected_products = [] \<or> length selected_products = 0
                \<or> all_products \<in> set selected_products
             then groupby_sum df
             else
               (let product_codes = map (split_first dash_sep) selected_products;
                    filtered_df = filter (\<lambda>r. strip (product_code r) \<in> set product_codes) df
                in groupby_sum filtered_df))
      in fill_missing_days (sort_values daily_data))"

section \<open>Loading\<close>

text \<open>
  One row of the uploaded file: the text of its cells in the sale-date column, the
  net-amount column and the code and name columns, and the number in the quantity
  column. The three flags of a table say whether the code and the name column of an axis
  are both present.
\<close>

record raw_row =
  raw_date :: pystr
  raw_quantity :: pyfloat
  raw_amount :: pystr
  raw_dept_code :: pystr
  raw_dept_name :: pystr
  raw_order_code :: pystr
  raw_order_name :: pystr
  raw_product_code :: pystr
  raw_product_name :: pystr

record 'r table =
  rows :: "'r list"
  has_dept :: bool
  has_order :: bool
  has_product :: bool

text \<open>
  What \<open>pd.read_csv\<close> makes of the upload: it raises, or it returns a frame, of which
  the three flags say whether the sale-date, the quantity and the net-amount column
  exist.
\<close>

record frame =
  cells :: "raw_row table"
  has_sale_date :: bool
  has_quantity :: bool
  has_net_amount :: bool

datatype csv = Unreadable | Readable frame

text \<open>
  \<open>pd.read_csv\<close> reads a cell that is one of its default missing-value markers as
  NaN, and \<open>str\<close> or \<open>astype(str)\<close> then give \<open>'nan'\<close>; the text of any other cell is
  kept. A cell is the text that \<open>astype(str)\<close> gives for it: that a column of whole
  numbers with a missing cell is read as floats is not modelled.
\<close>

definition na_values :: "pystr list" where
  "na_values = map ascii
     ['''', ''#N/A'', ''#N/A N/A'', ''#NA'', ''-1.#IND'', ''-1.#QNAN'', ''-NaN'', ''-nan'',
      ''1.#IND'', ''1.#QNAN'', ''<NA>'', ''N/A'', ''NA'', ''NULL'', ''NaN'', ''None'', ''n/a'',
      ''nan'', ''null'']"

definition astype_str :: "pystr \<Rightarrow> pystr" where
  "astype_str cell = (if cell \<in> set na_values then ascii ''nan'' else cell)"

text \<open>\<open>str.replace(old, new)\<close> for a one-character \<open>old\<close>.\<close>

definition replace_char :: "nat \<Rightarrow> pystr \<Rightarrow> pystr \<Rightarrow> pystr" where
  "replace_char old new s = concat (map (\<lambda>c. if c = old then new else [c]) s)"

text \<open>
  \<open>parse_date\<close>: the year and month signs become \<open>'-'\<close>, the day sign is dropped, and
  \<open>pd.to_datetime(.., format='%Y-%m-%d')\<close>, the parameter \<open>to_datetime\<close>, reads the
  result; \<open>None\<close> is \<open>NaT\<close>, which is also what the handler returns when the call raises.
\<close>

definition parse_date :: "(pystr \<Rightarrow> date option) \<Rightarrow> pystr \<Rightarrow> date option" where
  "parse_date to_datetime date_str =
     to_datetime (replace_char 26085 [] (replace_char 26376 [45] (replace_char 24180 [45] date_str)))"

text \<open>
  \<open>.str.replace(',', '').astype(float)\<close> on the whole column: one cell that \<open>float\<close>
  rejects raises \<open>ValueError\<close> for the column.
\<close>

fun astype_float :: "(pystr \<Rightarrow> pyfloat option) \<Rightarrow> pystr list \<Rightarrow> exn + pyfloat list" where
  "astype_float float_of [] = Inr []"
| "astype_float float_of (s # ss) =
     (case float_of s of
        None \<Rightarrow> Inl ValueError
      | Some x \<Rightarrow> (case astype_float float_of ss of Inl e \<Rightarrow> Inl e | Inr xs \<Rightarrow> Inr (x # xs)))"

definition typed_row :: "(pystr \<Rightarrow> date option) \<Rightarrow> raw_row \<Rightarrow> pyfloat \<Rightarrow> row" where
  "typed_row to_datetime r a =
     \<lparr>sale_date = parse_date to_datetime (astype_str (raw_date r)),
      quantity = raw_quantity r,
      amount = a,
      dept_code = astype_str (raw_dept_code r), dept_name = astype_str (raw_dept_name r),
      order_code = astype_str (raw_order_code r), order_name = astype_str (raw_order_name r),
      product_code = astype_str (raw_product_code r),
      product_name = astype_str (raw_product_name r)\<rparr>"

text \<open>
  The exceptions that the handler of \<open>load_data\<close> catches: any exception of
  \<open>pd.read_csv\<close>, the \<open>KeyError\<close> of a missing column, and the \<open>ValueError\<close> of the
  amount conversion.
\<close>

datatype load_exception = ReadError | KeyError | AmountValueError

text \<open>What the operator is shown besides menus, charts and tables.\<close>

datatype message =
    LoadError load_exception
  | NoDataWarning
  | DeptColumnsMissing
  | OrderColumnsMissing
  | ProductColumnsMissing
  | UploadPrompt

text \<open>
  \<open>load_data\<close>: the whole body runs under \<open>try\<close>; on an exception the error is shown and
  \<open>(None, None)\<close> returned, here \<open>Inl\<close> of the message. The sale-date column is used
  first, then the net-amount column, and the quantity column in the aggregation.
\<close>

definition load_data ::
  "(pystr \<Rightarrow> date option) \<Rightarrow> (pystr \<Rightarrow> pyfloat option) \<Rightarrow> csv
     \<Rightarrow> message + (entry list \<times> row table)" where
  "load_data to_datetime float_of file_path_or_buffer =
     (case file_path_or_buffer of
        Unreadable \<Rightarrow> Inl (LoadError ReadError)
      | Readable file \<Rightarrow>
          if \<not> has_sale_date file then Inl (LoadError KeyError)
          else if \<not> has_net_amount file then Inl (LoadError KeyError)
          else
            (case astype_float float_of
                    (map (\<lambda>r. replace_char 44 [] (astype_str (raw_amount r)))
                       (rows (cells file))) of
               Inl e \<Rightarrow> Inl (LoadError AmountValueError)
             | Inr amounts \<Rightarrow>
                 if \<not> has_quantity file then Inl (LoadError KeyError)
                 else
                   (let df = map (\<lambda>(r, a). typed_row to_datetime r a)
                               (zip (rows (cells file)) amounts);
                        daily_data_all = daily_aggregate df
                    in Inr (daily_data_all,
                            \<lparr>rows = df, has_dept = has_dept (cells file),
                             has_order = has_order (cells file),
                             has_product = has_product (cells file)\<rparr>))))"

section \<open>Selecting the series\<close>

text \<open>The three multiselect values chosen by the operator.\<close>

record selection =
  selected_departments :: "pystr list"
  selected_order_methods :: "pystr list"
  selected_products :: "pystr list"

text \<open>
  The sidebar part of the script after a successful load: each axis builds its menu from
  the rows filtered so far and filters by the selection; the product axis aggregates.
  The result is the messages shown and \<open>daily_data\<close> (\<open>None\<close> as in the source). An
  exception of \<open>sort_by_code\<close> is not caught and ends the run.
\<close>

definition select_daily ::
  "(pystr \<Rightarrow> pyfloat option) \<Rightarrow> row table \<Rightarrow> selection
     \<Rightarrow> exn + (message list \<times> entry list option)" where
  "select_daily float_of raw_data sel =
     (case (if has_dept raw_data
            then sort_by_code float_of
                   ([all_departments] @ unique (map dept_label (rows raw_data))) True
            else Inr []) of
        Inl e \<Rightarrow> Inl e
      | Inr department_list \<Rightarrow>
     (let departments = (if has_dept raw_data then selected_departments sel
                         else [all_departments]);
          filtered1 = (if has_dept raw_data
                       then filter_by_department (rows raw_data) departments
                       else rows raw_data);
          msgs1 = (if has_dept raw_data then [] else [DeptColumnsMissing])
      in case (if has_order raw_data
               then sort_by_code float_of
                      ([all_order_methods] @ unique (map order_label filtered1)) True
               else Inr []) of
           Inl e \<Rightarrow> Inl e
         | Inr order_method_list \<Rightarrow>
     (let filtered2 = (if has_order raw_data
                       then filter_by_order_method filtered1 (selected_order_methods sel)
                       else filtered1);
          msgs2 = msgs1 @ (if has_order raw_data then [] else [OrderColumnsMissing])
      in if has_product raw_data then
           (case sort_by_code float_of
                   ([all_products] @ unique (map product_label filtered2)) True of
              Inl e \<Rightarrow> Inl e
            | Inr product_list \<Rightarrow>
                (let daily_data_filtered = filter_by_product filtered2 (selected_products sel)
                 in if length daily_data_filtered > 0
                    then Inr (msgs2, Some daily_data_filtered)
                    else Inr (msgs2 @ [NoDataWarning], None)))
         else
           (let daily_data =
                  (if departments = [] \<or> length departments = 0
                      \<or> all_departments \<in> set departments
                   then fill_missing_days (sort_values (groupby_sum filtered2))
                   else filter_by_product filtered2 [all_products])
            in Inr (msgs2 @ [ProductColumnsMissing], Some daily_data)))))"

section \<open>Timeline\<close>

text \<open>
  The training frame \<open>daily_data_for_forecast\<close>: the rows up to the last date of the
  data, completed with zero rows from the first date of the data to the chosen last day.
\<close>

definition daily_data_for_forecast :: "entry list \<Rightarrow> date \<Rightarrow> entry list" where
  "daily_data_for_forecast daily_data data_end_date =
     (let original_last_date = col_max (map day daily_data);
          original_min_date = col_min (map day daily_data);
          kept = filter (\<lambda>e. day e \<le> original_last_date) daily_data
      in if length kept > 0 then
           (let min_date = original_min_date;
                max_date = data_end_date;
                all_dates = date_range min_date max_date;
                merged = merge_left all_dates kept
            in sort_values (map fillna_entry merged))
         else kept)"

text \<open>The two ways of choosing the first forecast day.\<close>

datatype start_method = DaysAfterLast int | ByDate date

fun start_date_of :: "start_method \<Rightarrow> date \<Rightarrow> date" where
  "start_date_of (DaysAfterLast days_after_last) data_end_date = data_end_date + days_after_last"
| "start_date_of (ByDate d) data_end_date = d"

definition forecast_days :: "date \<Rightarrow> date \<Rightarrow> int" where
  "forecast_days start_date end_date = (end_date - start_date) + 1"

definition days_to_forecast_end :: "entry list \<Rightarrow> date \<Rightarrow> date \<Rightarrow> int" where
  "days_to_forecast_end daily_data start_date end_date =
     (let last_data_date = col_max (map day daily_data);
          d = end_date - last_data_date
      in if d < 0 then forecast_days start_date end_date else d)"

section \<open>Forecasting\<close>

text \<open>
  The library call a branch makes: the training data and the number of periods it asks
  for (\<open>periods=\<close> of \<open>make_future_dataframe\<close>, \<open>n_periods=\<close> of \<open>predict\<close>, the length
  of \<open>X_future\<close>).
\<close>

datatype backend_call =
    ProphetCall "(date \<times> pyfloat) list" int
  | ArimaCall "pyfloat list" int
  | LinregCall "pyfloat list" int

fun periods_requested :: "backend_call \<Rightarrow> int" where
  "periods_requested (ProphetCall series periods) = periods"
| "periods_requested (ArimaCall y n_periods) = n_periods"
| "periods_requested (LinregCall y n) = n"

text \<open>
  The three libraries are parameters. A fitted seasonal model gives a value \<open>yhat\<close> for
  every date it is asked about; \<open>predict(n_periods=n)\<close> of the ARIMA model returns \<open>n\<close>
  values, here the steps \<open>0, .., n - 1\<close> ahead; the regression fitted on the index and
  the values gives one value for each index asked. Raw predictions are finite floats,
  modelled by reals. \<open>fit_error\<close> is the exception, if any, that fitting and
  predicting for a call raises (the seasonal model on fewer than two rows, the ARIMA
  search on a short series); the script does not catch it.
\<close>

record backends =
  prophet_yhat :: "(date \<times> pyfloat) list \<Rightarrow> date \<Rightarrow> real"
  arima_step :: "pyfloat list \<Rightarrow> nat \<Rightarrow> real"
  linreg_value :: "(int \<times> pyfloat) list \<Rightarrow> int \<Rightarrow> real"
  fit_error :: "backend_call \<Rightarrow> exn option"

datatype model_name = Prophet | ARIMA | LinearRegression

text \<open>The dispatch on the selected model, the same for the quantity and the amount.\<close>

definition model_call ::
  "model_name \<Rightarrow> bool \<Rightarrow> bool \<Rightarrow> (date \<times> pyfloat) list \<Rightarrow> int \<Rightarrow> int \<Rightarrow> backend_call" where
  "model_call selected_model prophet_available arima_available series dtfe fdays =
     (if selected_model = Prophet \<and> prophet_available then ProphetCall series dtfe
      else if selected_model = ARIMA \<and> arima_available then ArimaCall (map snd series) fdays
      else LinregCall (map snd series) fdays)"

text \<open>
  \<open>make_future_dataframe(periods)\<close> with the history included: the dates of the training
  frame followed by the \<open>periods\<close> days after its last date.
\<close>

definition make_future_dataframe :: "(date \<times> pyfloat) list \<Rightarrow> int \<Rightarrow> date list" where
  "make_future_dataframe history periods =
     (let history_dates = sort (remdups (map fst history));
          last_date = col_max history_dates
      in history_dates @ date_range (last_date + 1) (last_date + periods))"

text \<open>
  The raw forecast of a branch whose library calls return. The seasonal branch keeps the predictions from
  \<open>start_date\<close> on and at most \<open>forecast_days\<close> of them; the other two use the
  returned array as it is.
\<close>

fun run_call :: "backends \<Rightarrow> backend_call \<Rightarrow> date \<Rightarrow> int \<Rightarrow> real list" where
  "run_call bk (ProphetCall series periods) start_date fdays =
     (let future = make_future_dataframe series periods;
          forecast = map (\<lambda>ds. (ds, prophet_yhat bk series ds)) future;
          forecast_filtered = map snd (filter (\<lambda>(ds, yhat). ds \<ge> start_date) forecast)
      in if int (length forecast_filtered) \<ge> fdays
         then take (nat fdays) forecast_filtered
         else forecast_filtered)"
| "run_call bk (ArimaCall y n_periods) start_date fdays =
     map (arima_step bk y) [0..<nat n_periods]"
| "run_call bk (LinregCall y n) start_date fdays =
     (let X = [0..int (length y) - 1];
          X_future = [int (length y)..int (length y) + n - 1]
      in map (linreg_value bk (zip X y)) X_future)"

text \<open>\<open>np.maximum(forecast, 0)\<close>.\<close>

definition clip0 :: "real list \<Rightarrow> real list" where
  "clip0 xs = map (\<lambda>x. max x 0) xs"

definition quantity_series :: "entry list \<Rightarrow> (date \<times> pyfloat) list" where
  "quantity_series training = map (\<lambda>e. (day e, qty e)) training"

definition amount_series :: "entry list \<Rightarrow> (date \<times> pyfloat) list" where
  "amount_series training = map (\<lambda>e. (day e, amt e)) training"

text \<open>The operator's settings for a run.\<close>

record settings =
  selected_model :: model_name
  prophet_available :: bool
  arima_available :: bool
  data_end_date :: date
  start_choice :: start_method
  end_date :: date
  run_forecast :: bool

definition start_date :: "settings \<Rightarrow> date" where
  "start_date ui = start_date_of (start_choice ui) (data_end_date ui)"

text \<open>
  The call of the quantity forecast and of the amount forecast, and the forecasts when
  the calls return; both train on
  \<open>daily_data_for_forecast\<close>, while \<open>days_to_forecast_end\<close> counts from the last date
  of \<open>daily_data\<close>.
\<close>

definition quantity_call :: "settings \<Rightarrow> entry list \<Rightarrow> backend_call" where
  "quantity_call ui daily_data =
     model_call (selected_model ui) (prophet_available ui) (arima_available ui)
       (quantity_series (daily_data_for_forecast daily_data (data_end_date ui)))
       (days_to_forecast_end daily_data (start_date ui) (end_date ui))
       (forecast_days (start_date ui) (end_date ui))"

definition amount_call :: "settings \<Rightarrow> entry list \<Rightarrow> backend_call" where
  "amount_call ui daily_data =
     model_call (selected_model ui) (prophet_available ui) (arima_available ui)
       (amount_series (daily_data_for_forecast daily_data (data_end_date ui)))
       (days_to_forecast_end daily_data (start_date ui) (end_date ui))
       (forecast_days (start_date ui) (end_date ui))"

definition forecast_quantity :: "backends \<Rightarrow> settings \<Rightarrow> entry list \<Rightarrow> real list" where
  "forecast_quantity bk ui daily_data =
     clip0 (run_call bk (quantity_call ui daily_data)
              (start_date ui) (forecast_days (start_date ui) (end_date ui)))"

definition forecast_amount :: "backends \<Rightarrow> settings \<Rightarrow> entry list \<Rightarrow> real list" where
  "forecast_amount bk ui daily_data =
     clip0 (run_call bk (amount_call ui daily_data)
              (start_date ui) (forecast_days (start_date ui) (end_date ui)))"

text \<open>
  The rows of the result table \<open>forecast_df\<close> before rounding and formatting: the three
  arrays cut to the shortest of them.
\<close>

definition forecast_df :: "date list \<Rightarrow> real list \<Rightarrow> real list \<Rightarrow> (date \<times> real \<times> real) list" where
  "forecast_df forecast_dates fq fa =
     (let min_length = min (length forecast_dates) (min (length fq) (length fa))
      in zip (take min_length forecast_dates) (zip (take min_length fq) (take min_length fa)))"

text \<open>
  The forecast part of the script; \<open>None\<close> when the button was not pressed. An
  exception of a library call ends the run. After the table is shown, the summary takes
  \<open>np.max(forecast_amount)\<close>, which raises \<open>ValueError\<close> on an empty array.
\<close>

definition forecast_table ::
  "backends \<Rightarrow> settings \<Rightarrow> entry list \<Rightarrow> exn + (date \<times> real \<times> real) list option" where
  "forecast_table bk ui daily_data =
     (let forecast_dates_quantity = date_range (start_date ui) (end_date ui)
      in if run_forecast ui then
           (case fit_error bk (quantity_call ui daily_data) of
              Some e \<Rightarrow> Inl e
            | None \<Rightarrow>
                (case fit_error bk (amount_call ui daily_data) of
                   Some e \<Rightarrow> Inl e
                 | None \<Rightarrow>
                     if forecast_amount bk ui daily_data = [] then Inl ValueError
                     else Inr (Some (forecast_df forecast_dates_quantity
                                       (forecast_quantity bk ui daily_data)
                                       (forecast_amount bk ui daily_data)))))
         else Inr None)"

section \<open>The script\<close>

text \<open>
  One run of the script on an upload: an uncaught exception, or the messages shown and
  the result table, if a forecast was made.
\<close>

definition app ::
  "(pystr \<Rightarrow> date option) \<Rightarrow> (pystr \<Rightarrow> pyfloat option) \<Rightarrow> backends \<Rightarrow> csv option
     \<Rightarrow> selection \<Rightarrow> settings \<Rightarrow> exn + (message list \<times> (date \<times> real \<times> real) list option)" where
  "app to_datetime float_of bk uploaded_file sel ui =
     (case uploaded_file of
        None \<Rightarrow> Inr ([UploadPrompt], None)
      | Some file \<Rightarrow>
          (case load_data to_datetime float_of file of
             Inl err \<Rightarrow> Inr ([err, UploadPrompt], None)
           | Inr (daily_data_all, raw_data) \<Rightarrow>
               if length daily_data_all > 0 then
                 (case select_daily float_of raw_data sel of
                    Inl e \<Rightarrow> Inl e
                  | Inr (msgs, None) \<Rightarrow> Inr (msgs, None)
                  | Inr (msgs, Some daily_data) \<Rightarrow>
                      if length daily_data > 0
                      then (case forecast_table bk ui daily_data of
                              Inl e \<Rightarrow> Inl e
                            | Inr forecast \<Rightarrow> Inr (msgs, forecast))
                      else Inr (msgs, None))
               else Inr ([UploadPrompt], None)))"

subsection \<open>Calendar dates\<close>

text \<open>The ordinal of a calendar date, as Python's \<open>datetime\<close> computes it.\<close>

definition is_leap :: "int \<Rightarrow> bool" where
  "is_leap y \<longleftrightarrow> y mod 4 = 0 \<and> (y mod 100 \<noteq> 0 \<or> y mod 400 = 0)"

definition days_before_year :: "int \<Rightarrow> int" where
  "days_before_year y = (y - 1) * 365 + (y - 1) div 4 - (y - 1) div 100 + (y - 1) div 400"

definition days_before_month :: "int \<Rightarrow> int \<Rightarrow> int" where
  "days_before_month y m =
     [0, 31, 59, 90, 120, 151, 181, 212, 243, 273, 304, 334] ! nat (m - 1)
     + (if m > 2 \<and> is_leap y then 1 else 0)"

definition ymd :: "int \<Rightarrow> int \<Rightarrow> int \<Rightarrow> date" where
  "ymd y m d = days_before_year y + days_before_month y m + d"

section \<open>Notions used to state the properties\<close>

text \<open>The sale dates of a record set that were parsed, in row order.\<close>

definition valid_dates :: "row list \<Rightarrow> date list" where
  "valid_dates df = List.map_filter sale_date df"

text \<open>\<open>sub in s\<close> for strings.\<close>

fun contains :: "pystr \<Rightarrow> pystr \<Rightarrow> bool" where
  "contains sub [] = (sub = [])"
| "contains sub (c # cs) = (startswith sub (c # cs) \<or> contains sub cs)"

text \<open>The sort key of a label whose key computation returns.\<close>

definition code_key :: "(pystr \<Rightarrow> pyfloat option) \<Rightarrow> pystr \<Rightarrow> int" where
  "code_key float_of item = (case extract_code float_of item of Inr k \<Rightarrow> k | Inl e \<Rightarrow> 0)"

text \<open>Whether the run takes the branch of the seasonal model.\<close>

definition seasonal_branch :: "settings \<Rightarrow> bool" where
  "seasonal_branch ui \<longleftrightarrow> selected_model ui = Prophet \<and> prophet_available ui"

section \<open>Properties of the daily aggregation\<close>

lemma group_keys_sorted: "sorted (group_keys df)"
  by (simp add: group_keys_def)

lemma group_keys_distinct: "distinct (group_keys df)"
  by (simp add: group_keys_def)

lemma set_group_keys: "set (group_keys df) = set (valid_dates df)"
  by (simp add: group_keys_def valid_dates_def)

lemma days_groupby_sum: "map day (groupby_sum df) = group_keys df"
  by (simp add: groupby_sum_def comp_def)

lemma sort_values_sorted: "sorted (map day daily) \<Longrightarrow> sort_values daily = daily"
  by (simp add: sort_values_def sort_key_id_if_sorted)

lemma col_min_Min: "ds \<noteq> [] \<Longrightarrow> col_min ds = Min (set ds)"
  by (cases ds) (simp_all add: col_min_def Min.set_eq_fold[symmetric] del: set_simps)

lemma col_max_Max: "ds \<noteq> [] \<Longrightarrow> col_max ds = Max (set ds)"
  by (cases ds) (simp_all add: col_max_def Max.set_eq_fold[symmetric] del: set_simps)

lemma filter_day_single:
  "distinct (map day daily) \<Longrightarrow> length (filter (\<lambda>e. day e = d) daily) \<le> 1"
proof (induction daily)
  case Nil
  then show ?case by simp
next
  case (Cons e es)
  then show ?case by (auto simp: filter_empty_conv image_iff)
qed

lemma days_merge_cell:
  assumes "distinct (map day daily)"
  shows "map day (merge_cell daily d) = [d]"
proof (cases "filter (\<lambda>e. day e = d) daily")
  case Nil
  then show ?thesis by (simp add: merge_cell_def)
next
  case (Cons m ms)
  from filter_day_single[OF assms, of d] Cons have "ms = []" by simp
  moreover have "m \<in> set (filter (\<lambda>e. day e = d) daily)" using Cons by simp
  then have "day m = d" by simp
  ultimately show ?thesis using Cons by (simp add: merge_cell_def)
qed

lemma days_merge_left:
  "distinct (map day daily) \<Longrightarrow> map day (merge_left all_dates daily) = all_dates"
  by (induction all_dates) (simp_all add: merge_left_def days_merge_cell)

lemma merge_cell_mem:
  assumes "e \<in> set (merge_cell daily d)"
  shows "e \<in> set daily \<or> (qty e = NaN \<and> amt e = NaN \<and> day e \<notin> day ` set daily)"
proof (cases "filter (\<lambda>e. day e = d) daily")
  case Nil
  then have "d \<notin> day ` set daily" by (auto simp: filter_empty_conv)
  with assms Nil show ?thesis by (simp add: merge_cell_def)
next
  case (Cons m ms)
  with assms have "e \<in> set (filter (\<lambda>e. day e = d) daily)" by (simp add: merge_cell_def)
  then show ?thesis by simp
qed

lemma merge_left_mem:
  "e \<in> set (merge_left all_dates daily) \<Longrightarrow>
     e \<in> set daily \<or> (qty e = NaN \<and> amt e = NaN \<and> day e \<notin> day ` set daily)"
  by (auto simp: merge_left_def dest: merge_cell_mem)

lemma days_fillna: "map day (map fillna_entry es) = map day es"
  by (simp add: comp_def fillna_entry_def)

lemma fill_missing_days_days:
  assumes "daily \<noteq> []" "distinct (map day daily)"
  shows "map day (fill_missing_days daily) = [Min (day ` set daily)..Max (day ` set daily)]"
proof -
  let ?ds = "[col_min (map day daily)..col_max (map day daily)]"
  have d: "map day (map fillna_entry (merge_left ?ds daily)) = ?ds"
    using days_merge_left[OF assms(2), of ?ds] by (simp only: days_fillna)
  have "sorted ?ds" by simp
  with d have "sort_values (map fillna_entry (merge_left ?ds daily))
      = map fillna_entry (merge_left ?ds daily)"
    using sort_values_sorted by metis
  with d assms(1) show ?thesis
    by (simp add: fill_missing_days_def date_range_def Let_def col_min_Min col_max_Max)
qed

lemma fill_missing_days_mem:
  assumes "e \<in> set (fill_missing_days daily)"
  shows "e \<in> fillna_entry ` set daily \<or>
         (qty e = Fin 0 \<and> amt e = Fin 0 \<and> day e \<notin> day ` set daily)"
proof (cases "daily = []")
  case True
  with assms show ?thesis by (simp add: fill_missing_days_def)
next
  case False
  with assms obtain m
    where m: "m \<in> set (merge_left (date_range (col_min (map day daily))
                                               (col_max (map day daily))) daily)"
      and e: "e = fillna_entry m"
    by (auto simp: fill_missing_days_def Let_def sort_values_def)
  from merge_left_mem[OF m] show ?thesis
  proof
    assume "m \<in> set daily"
    with e show ?thesis by blast
  next
    assume "qty m = NaN \<and> amt m = NaN \<and> day m \<notin> day ` set daily"
    with e show ?thesis by (simp add: fillna_entry_def fillna0_def)
  qed
qed

lemma daily_aggregate_unfold: "daily_aggregate df = fill_missing_days (groupby_sum df)"
proof -
  have "sort_values (groupby_sum df) = groupby_sum df"
    by (rule sort_values_sorted) (simp add: days_groupby_sum group_keys_sorted)
  then show ?thesis by (simp add: daily_aggregate_def)
qed

lemma days_set_groupby_sum: "day ` set (groupby_sum df) = set (valid_dates df)"
  using set_group_keys[of df] days_groupby_sum[of df] by (metis set_map)

lemma daily_aggregate_days:
  assumes "valid_dates df \<noteq> []"
  shows "map day (daily_aggregate df)
           = [Min (set (valid_dates df))..Max (set (valid_dates df))]"
proof -
  from assms have "set (valid_dates df) \<noteq> {}" by simp
  then have ne: "groupby_sum df \<noteq> []" using days_set_groupby_sum[of df] by auto
  have dist: "distinct (map day (groupby_sum df))"
    by (simp add: days_groupby_sum group_keys_distinct)
  from fill_missing_days_days[OF ne dist] show ?thesis
    by (simp add: daily_aggregate_unfold days_set_groupby_sum)
qed

lemma daily_aggregate_zero:
  assumes "e \<in> set (daily_aggregate df)" "day e \<notin> set (valid_dates df)"
  shows "qty e = Fin 0 \<and> amt e = Fin 0"
proof -
  from assms(1) have "e \<in> set (fill_missing_days (groupby_sum df))"
    by (simp add: daily_aggregate_unfold)
  from fill_missing_days_mem[OF this] show ?thesis
  proof
    assume "e \<in> fillna_entry ` set (groupby_sum df)"
    then have "day e \<in> day ` set (groupby_sum df)" by (auto simp: fillna_entry_def)
    with assms(2) show ?thesis by (simp add: days_set_groupby_sum)
  qed simp
qed

lemma upto_adjacent:
  assumes "Suc i < length [lo..hi]"
  shows "[lo..hi] ! Suc i = [lo..hi] ! i + 1"
proof -
  from assms have "lo + int (Suc i) \<le> hi" by simp
  then show ?thesis by simp
qed

text \<open>
  C1 (as amended). For every record set with at least one parsed sale date, the daily
  series has one entry for each day from the least to the greatest parsed sale date, in
  ascending order: it has (max - min) + 1 entries, adjacent entries are one day apart,
  and an entry whose day is the sale date of no record has quantity 0 and amount 0.
\<close>

theorem daily_aggregate_span:
  assumes "valid_dates df \<noteq> []"
  shows "map day (daily_aggregate df)
           = date_range (Min (set (valid_dates df))) (Max (set (valid_dates df)))
         \<and> int (length (daily_aggregate df))
             = (Max (set (valid_dates df)) - Min (set (valid_dates df))) + 1
         \<and> (\<forall>i. Suc i < length (daily_aggregate df) \<longrightarrow>
               day (daily_aggregate df ! Suc i) = day (daily_aggregate df ! i) + 1)
         \<and> (\<forall>e \<in> set (daily_aggregate df).
               day e \<notin> set (valid_dates df) \<longrightarrow> qty e = Fin 0 \<and> amt e = Fin 0)"
proof -
  let ?lo = "Min (set (valid_dates df))" and ?hi = "Max (set (valid_dates df))"
  have days: "map day (daily_aggregate df) = [?lo..?hi]"
    by (rule daily_aggregate_days[OF assms])
  from assms have "?lo \<le> ?hi" by simp
  moreover from days have "length (daily_aggregate df) = length [?lo..?hi]"
    by (metis length_map)
  ultimately have len: "int (length (daily_aggregate df)) = (?hi - ?lo) + 1" by simp
  have adj: "day (daily_aggregate df ! Suc i) = day (daily_aggregate df ! i) + 1"
    if "Suc i < length (daily_aggregate df)" for i
  proof -
    from that days have l: "Suc i < length [?lo..?hi]" by (metis length_map)
    have "day (daily_aggregate df ! Suc i) = map day (daily_aggregate df) ! Suc i"
      using that by simp
    moreover have "day (daily_aggregate df ! i) = map day (daily_aggregate df) ! i"
      using that by simp
    ultimately show ?thesis using upto_adjacent[OF l] days by simp
  qed
  from days len adj daily_aggregate_zero show ?thesis
    by (simp add: date_range_def)
qed

theorem daily_aggregate_span_witness:
  "valid_dates
     [\<lparr>sale_date = Some 10, quantity = Fin 5, amount = Fin 500, dept_code = [], dept_name = [],
       order_code = [], order_name = [], product_code = [], product_name = []\<rparr>,
      \<lparr>sale_date = None, quantity = Fin 1, amount = Fin 100, dept_code = [], dept_name = [],
       order_code = [], order_name = [], product_code = [], product_name = []\<rparr>,
      \<lparr>sale_date = Some 12, quantity = Fin 3, amount = Fin 300, dept_code = [], dept_name = [],
       order_code = [], order_name = [], product_code = [], product_name = []\<rparr>] \<noteq> []
   \<and> map day (daily_aggregate
     [\<lparr>sale_date = Some 10, quantity = Fin 5, amount = Fin 500, dept_code = [], dept_name = [],
       order_code = [], order_name = [], product_code = [], product_name = []\<rparr>,
      \<lparr>sale_date = None, quantity = Fin 1, amount = Fin 100, dept_code = [], dept_name = [],
       order_code = [], order_name = [], product_code = [], product_name = []\<rparr>,
      \<lparr>sale_date = Some 12, quantity = Fin 3, amount = Fin 300, dept_code = [], dept_name = [],
       order_code = [], order_name = [], product_code = [], product_name = []\<rparr>]) = [10, 11, 12]
   \<and> length (daily_aggregate
     [\<lparr>sale_date = Some 10, quantity = Fin 5, amount = Fin 500, dept_code = [], dept_name = [],
       order_code = [], order_name = [], product_code = [], product_name = []\<rparr>,
      \<lparr>sale_date = None, quantity = Fin 1, amount = Fin 100, dept_code = [], dept_name = [],
       order_code = [], order_name = [], product_code = [], product_name = []\<rparr>,
      \<lparr>sale_date = Some 12, quantity = Fin 3, amount = Fin 300, dept_code = [], dept_name = [],
       order_code = [], order_name = [], product_code = [], product_name = []\<rparr>]) = 3"
proof -
  let ?df = "[\<lparr>sale_date = Some 10, quantity = Fin 5, amount = Fin 500, dept_code = [],
       dept_name = [], order_code = [], order_name = [], product_code = [], product_name = []\<rparr>,
      \<lparr>sale_date = None, quantity = Fin 1, amount = Fin 100, dept_code = [], dept_name = [],
       order_code = [], order_name = [], product_code = [], product_name = []\<rparr>,
      \<lparr>sale_date = Some 12, quantity = Fin 3, amount = Fin 300, dept_code = [], dept_name = [],
       order_code = [], order_name = [], product_code = [], product_name = []\<rparr>]"
  have v: "valid_dates ?df = [10, 12]" by (simp add: valid_dates_def List.map_filter_def)
  then have h: "valid_dates ?df \<noteq> []" by simp
  from daily_aggregate_span[OF h] v
  have "map day (daily_aggregate ?df) = [10, 11, 12] \<and> int (length (daily_aggregate ?df)) = 3"
    by (simp add: date_range_def)
  with h show ?thesis by simp
qed

text \<open>
  C1 as stated fails on a non-empty record set in which no sale date was parsed: the
  rows belong to no group and the series is empty.
\<close>

theorem daily_aggregate_undated_counterexample:
  "[\<lparr>sale_date = None, quantity = Fin 5, amount = Fin 500, dept_code = [], dept_name = [],
     order_code = [], order_name = [], product_code = [], product_name = []\<rparr>] \<noteq> []
   \<and> daily_aggregate
     [\<lparr>sale_date = None, quantity = Fin 5, amount = Fin 500, dept_code = [], dept_name = [],
       order_code = [], order_name = [], product_code = [], product_name = []\<rparr>] = []"
  by (simp add: daily_aggregate_def groupby_sum_def group_keys_def List.map_filter_def
      sort_values_def fill_missing_days_def)

section \<open>Evaluating the model\<close>

lemmas aggregate_defs =
  daily_aggregate_def groupby_sum_def group_keys_def List.map_filter_def sort_values_def
  fill_missing_days_def col_min_def col_max_def date_range_def merge_left_def merge_cell_def
  fillna_entry_def fillna0_def agg_sum_def

lemmas string_defs =
  ascii_def strip_def isspace_def dash_sep_def all_departments_def all_order_methods_def
  all_products_def dept_label_def order_label_def product_label_def

lemmas float_defs =
  py_float_def lower_def is_digit_def digits_value_def parse_mantissa_def parse_exponent_def
  list_all_iff

lemmas forecast_defs =
  forecast_quantity_def forecast_amount_def quantity_call_def amount_call_def model_call_def
  quantity_series_def amount_series_def daily_data_for_forecast_def start_date_def
  forecast_days_def days_to_forecast_end_def make_future_dataframe_def clip0_def
  forecast_table_def forecast_df_def

lemmas calendar_defs = ymd_def days_before_year_def days_before_month_def is_leap_def

section \<open>Properties of the forecast\<close>

text \<open>
  C2. Whatever the selected backend, the available backends, the training data and the
  forecast window, every element of the returned quantity forecast and of the returned
  amount forecast is at least 0, also where the raw prediction is negative.
\<close>

theorem forecast_nonnegative:
  "(\<forall>x \<in> set (forecast_quantity bk ui daily_data). 0 \<le> x)
   \<and> (\<forall>x \<in> set (forecast_amount bk ui daily_data). 0 \<le> x)"
  by (simp add: forecast_quantity_def forecast_amount_def clip0_def)

text \<open>
  A run of the regression branch on a declining series: the raw predictions for the
  two forecast days are negative, the returned ones are 0.
\<close>

theorem forecast_nonnegative_witness:
  "run_call
     \<lparr>prophet_yhat = (\<lambda>s d. - 1), arima_step = (\<lambda>y k. - 1),
      linreg_value = (\<lambda>xy x. 10 - 6 * real_of_int x),
      fit_error = (\<lambda>c. None)\<rparr>
     (quantity_call
        \<lparr>selected_model = LinearRegression, prophet_available = False,
      arima_available = False, data_end_date = 11, start_choice = DaysAfterLast 2,
      end_date = 14, run_forecast = True\<rparr>
        [\<lparr>day = 10, qty = Fin 8, amt = Fin 80\<rparr>, \<lparr>day = 11, qty = Fin 2, amt = Fin 20\<rparr>])
     13 2 = [- 2, - 8]
   \<and> forecast_quantity
     \<lparr>prophet_yhat = (\<lambda>s d. - 1), arima_step = (\<lambda>y k. - 1),
      linreg_value = (\<lambda>xy x. 10 - 6 * real_of_int x),
      fit_error = (\<lambda>c. None)\<rparr>
     \<lparr>selected_model = LinearRegression, prophet_available = False,
      arima_available = False, data_end_date = 11, start_choice = DaysAfterLast 2,
      end_date = 14, run_forecast = True\<rparr>
     [\<lparr>day = 10, qty = Fin 8, amt = Fin 80\<rparr>, \<lparr>day = 11, qty = Fin 2, amt = Fin 20\<rparr>] = [0, 0]
   \<and> 0 \<le> hd (forecast_quantity
     \<lparr>prophet_yhat = (\<lambda>s d. - 1), arima_step = (\<lambda>y k. - 1),
      linreg_value = (\<lambda>xy x. 10 - 6 * real_of_int x),
      fit_error = (\<lambda>c. None)\<rparr>
     \<lparr>selected_model = LinearRegression, prophet_available = False,
      arima_available = False, data_end_date = 11, start_choice = DaysAfterLast 2,
      end_date = 14, run_forecast = True\<rparr>
     [\<lparr>day = 10, qty = Fin 8, amt = Fin 80\<rparr>, \<lparr>day = 11, qty = Fin 2, amt = Fin 20\<rparr>])
   \<and> 0 \<le> hd (forecast_amount
     \<lparr>prophet_yhat = (\<lambda>s d. - 1), arima_step = (\<lambda>y k. - 1),
      linreg_value = (\<lambda>xy x. 10 - 6 * real_of_int x),
      fit_error = (\<lambda>c. None)\<rparr>
     \<lparr>selected_model = LinearRegression, prophet_available = False,
      arima_available = False, data_end_date = 11, start_choice = DaysAfterLast 2,
      end_date = 14, run_forecast = True\<rparr>
     [\<lparr>day = 10, qty = Fin 8, amt = Fin 80\<rparr>, \<lparr>day = 11, qty = Fin 2, amt = Fin 20\<rparr>])"
proof -
  let ?bk = "\<lparr>prophet_yhat = (\<lambda>s d. - 1), arima_step = (\<lambda>y k. - 1),
      linreg_value = (\<lambda>xy x. 10 - 6 * real_of_int x),
      fit_error = (\<lambda>c. None)\<rparr>"
  let ?ui = "\<lparr>selected_model = LinearRegression, prophet_available = False,
      arima_available = False, data_end_date = 11, start_choice = DaysAfterLast 2,
      end_date = 14, run_forecast = True\<rparr>"
  let ?d = "[\<lparr>day = 10, qty = Fin 8, amt = Fin 80\<rparr>, \<lparr>day = 11, qty = Fin 2, amt = Fin 20\<rparr>]"
  have c: "quantity_call ?ui ?d = LinregCall [Fin 8, Fin 2] 2"
    "amount_call ?ui ?d = LinregCall [Fin 80, Fin 20] 2"
    by (simp_all add: forecast_defs aggregate_defs)
  have s: "start_date ?ui = 13" "forecast_days (start_date ?ui) (end_date ?ui) = 2"
    by (simp_all add: start_date_def forecast_days_def)
  have r: "run_call ?bk (LinregCall [Fin 8, Fin 2] 2) 13 2 = [- 2, - 8]"
    "run_call ?bk (LinregCall [Fin 80, Fin 20] 2) 13 2 = [- 2, - 8]"
    by simp_all
  have q: "forecast_quantity ?bk ?ui ?d = [0, 0]"
    unfolding forecast_quantity_def c s r by (simp add: clip0_def)
  have a: "forecast_amount ?bk ?ui ?d = [0, 0]"
    unfolding forecast_amount_def c s r by (simp add: clip0_def)
  from q a have m: "hd (forecast_quantity ?bk ?ui ?d) \<in> set (forecast_quantity ?bk ?ui ?d)"
    "hd (forecast_amount ?bk ?ui ?d) \<in> set (forecast_amount ?bk ?ui ?d)"
    by simp_all
  from forecast_nonnegative[of ?bk ?ui ?d] m
  have "0 \<le> hd (forecast_quantity ?bk ?ui ?d)" "0 \<le> hd (forecast_amount ?bk ?ui ?d)"
    by blast+
  with c(1) r(1) q show ?thesis by simp
qed

section \<open>Properties of the training frame\<close>

lemma filter_key_nth:
  "distinct (map f xs) \<Longrightarrow> i < length xs \<Longrightarrow> filter (\<lambda>e. f e = f (xs ! i)) xs = [xs ! i]"
proof (induction xs arbitrary: i)
  case Nil
  then show ?case by simp
next
  case (Cons x xs)
  show ?case
  proof (cases i)
    case 0
    from Cons.prems have "f x \<notin> f ` set xs" by simp
    then have "\<forall>e \<in> set xs. f e \<noteq> f x" by (metis imageI)
    then have "filter (\<lambda>e. f e = f x) xs = []"
      by (simp add: filter_empty_conv)
    with 0 show ?thesis by simp
  next
    case (Suc j)
    with Cons.prems have j: "j < length xs" and d: "distinct (map f xs)" by simp_all
    from Cons.prems j have "f x \<noteq> f (xs ! j)" by auto
    with Cons.IH[OF d j] Suc show ?thesis by simp
  qed
qed

lemma contiguous_nth:
  assumes "map day daily = [lo..hi]" "lo \<le> d" "d \<le> hi"
  shows "nat (d - lo) < length daily \<and> day (daily ! nat (d - lo)) = d"
proof -
  from assms(1) have len: "length daily = length [lo..hi]" by (metis length_map)
  with assms(2,3) have i: "nat (d - lo) < length daily" by simp
  then have "day (daily ! nat (d - lo)) = [lo..hi] ! nat (d - lo)"
    using assms(1) by (metis nth_map)
  also have "\<dots> = d" using assms(2,3) by simp
  finally show ?thesis using i by simp
qed

lemma merge_cell_inside:
  assumes "map day daily = [lo..hi]" "lo \<le> d" "d \<le> hi"
  shows "merge_cell daily d = [daily ! nat (d - lo)]"
proof -
  from assms(1) have dist: "distinct (map day daily)" by simp
  from contiguous_nth[OF assms]
  have i: "nat (d - lo) < length daily" and dd: "day (daily ! nat (d - lo)) = d" by simp_all
  from filter_key_nth[OF dist i] dd
  have "filter (\<lambda>e. day e = d) daily = [daily ! nat (d - lo)]" by simp
  then show ?thesis by (simp add: merge_cell_def)
qed

lemma merge_cell_outside:
  assumes "map day daily = [lo..hi]" "hi < d"
  shows "merge_cell daily d = [\<lparr>day = d, qty = NaN, amt = NaN\<rparr>]"
proof -
  have "day ` set daily = {lo..hi}" using assms(1) by (metis set_map set_upto)
  then have "\<forall>e \<in> set daily. day e \<le> hi" by (metis atLeastAtMost_iff imageI)
  with assms(2) have "filter (\<lambda>e. day e = d) daily = []"
    by (fastforce simp: filter_empty_conv)
  then show ?thesis by (simp add: merge_cell_def)
qed

lemma merge_left_contiguous:
  assumes "map day daily = [lo..hi]"
  shows "set ds \<subseteq> {lo..} \<Longrightarrow>
         merge_left ds daily =
           map (\<lambda>d. if d \<le> hi then daily ! nat (d - lo)
                     else \<lparr>day = d, qty = NaN, amt = NaN\<rparr>) ds"
proof (induction ds)
  case Nil
  then show ?case by (simp add: merge_left_def)
next
  case (Cons d ds)
  then have IH: "merge_left ds daily =
      map (\<lambda>d. if d \<le> hi then daily ! nat (d - lo)
                else \<lparr>day = d, qty = NaN, amt = NaN\<rparr>) ds"
    and lo: "lo \<le> d" by simp_all
  have "merge_cell daily d =
      [if d \<le> hi then daily ! nat (d - lo) else \<lparr>day = d, qty = NaN, amt = NaN\<rparr>]"
    using merge_cell_inside[OF assms lo] merge_cell_outside[OF assms] by simp
  with IH show ?case by (simp add: merge_left_def)
qed

lemma days_of_frame:
  assumes "\<And>d. d \<in> set ds \<Longrightarrow> day (g d) = d"
  shows "map day (map g ds) = ds"
  using assms by (induction ds) simp_all

lemma contiguous_bounds:
  assumes "daily \<noteq> []" "map day daily = [lo..hi]"
  shows "lo \<le> hi" "col_min (map day daily) = lo" "col_max (map day daily) = hi"
proof -
  from assms have ne: "[lo..hi] \<noteq> []" by (metis map_is_Nil_conv)
  then show le: "lo \<le> hi" by simp
  from assms(1) have "map day daily \<noteq> []" by simp
  then have "col_min (map day daily) = Min (set (map day daily))"
    and "col_max (map day daily) = Max (set (map day daily))"
    using col_min_Min col_max_Max by blast+
  moreover from le have "Min {lo..hi} = lo" "Max {lo..hi} = hi"
    by (auto intro: Min_eqI Max_eqI)
  ultimately show "col_min (map day daily) = lo" "col_max (map day daily) = hi"
    using assms(2) by simp_all
qed

lemma training_frame_eq:
  assumes "daily_data \<noteq> []" "map day daily_data = [lo..hi]"
  shows "daily_data_for_forecast daily_data cutoff =
           map (\<lambda>d. if d \<le> hi then fillna_entry (daily_data ! nat (d - lo))
                     else \<lparr>day = d, qty = Fin 0, amt = Fin 0\<rparr>) [lo..cutoff]"
proof -
  note b = contiguous_bounds[OF assms]
  have "\<forall>e \<in> set daily_data. day e \<le> hi"
    using assms(2) by (metis atLeastAtMost_iff image_eqI set_map set_upto)
  then have kept: "filter (\<lambda>e. day e \<le> hi) daily_data = daily_data" by simp
  have m: "merge_left [lo..cutoff] daily_data =
      map (\<lambda>d. if d \<le> hi then daily_data ! nat (d - lo)
                else \<lparr>day = d, qty = NaN, amt = NaN\<rparr>) [lo..cutoff]"
    by (rule merge_left_contiguous[OF assms(2)]) auto
  let ?r = "map (\<lambda>d. if d \<le> hi then fillna_entry (daily_data ! nat (d - lo))
                     else \<lparr>day = d, qty = Fin 0, amt = Fin 0\<rparr>) [lo..cutoff]"
  have f: "map fillna_entry (merge_left [lo..cutoff] daily_data) = ?r"
    unfolding m by (simp add: fillna_entry_def fillna0_def)
  have "day (if d \<le> hi then fillna_entry (daily_data ! nat (d - lo))
             else \<lparr>day = d, qty = Fin 0, amt = Fin 0\<rparr>) = d" if "d \<in> set [lo..cutoff]" for d
    using that contiguous_nth[OF assms(2), of d] by (simp add: fillna_entry_def)
  then have days: "map day ?r = [lo..cutoff]"
    by (rule days_of_frame)
  then have "sorted (map day ?r)" by simp
  then have "sort_values ?r = ?r" by (rule sort_values_sorted)
  with f kept assms(1) show ?thesis
    by (simp add: daily_data_for_forecast_def Let_def b date_range_def)
qed

lemma training_frame_days:
  assumes "daily_data \<noteq> []" "map day daily_data = [lo..hi]"
  shows "map day (daily_data_for_forecast daily_data cutoff) = [lo..cutoff]"
proof -
  have "day (if d \<le> hi then fillna_entry (daily_data ! nat (d - lo))
             else \<lparr>day = d, qty = Fin 0, amt = Fin 0\<rparr>) = d" if "d \<in> set [lo..cutoff]" for d
    using that contiguous_nth[OF assms(2), of d] by (simp add: fillna_entry_def)
  then have "map day (map (\<lambda>d. if d \<le> hi then fillna_entry (daily_data ! nat (d - lo))
             else \<lparr>day = d, qty = Fin 0, amt = Fin 0\<rparr>) [lo..cutoff]) = [lo..cutoff]"
    by (rule days_of_frame)
  then show ?thesis
    unfolding training_frame_eq[OF assms] .
qed

text \<open>
  C4. For a non-empty daily series that covers the days from \<open>lo\<close> (its first date) to
  \<open>hi\<close> (its last date) and every chosen last day \<open>cutoff\<close>, the training frame has
  exactly the days from \<open>lo\<close> to \<open>cutoff\<close> in ascending order; a day up to \<open>hi\<close> carries
  the entry of the series for that day, a day after \<open>hi\<close> carries quantity 0 and amount
  0, and no entry after \<open>cutoff\<close> is kept.
\<close>

theorem training_frame_span:
  assumes "daily_data \<noteq> []" and "map day daily_data = date_range lo hi"
  shows "col_min (map day daily_data) = lo \<and> col_max (map day daily_data) = hi
         \<and> map day (daily_data_for_forecast daily_data cutoff) = date_range lo cutoff
         \<and> daily_data_for_forecast daily_data cutoff =
             map (\<lambda>d. if d \<le> hi then fillna_entry (daily_data ! nat (d - lo))
                       else \<lparr>day = d, qty = Fin 0, amt = Fin 0\<rparr>) (date_range lo cutoff)
         \<and> (\<forall>e \<in> set (daily_data_for_forecast daily_data cutoff). day e \<le> cutoff)"
proof -
  from assms(2) have c: "map day daily_data = [lo..hi]" by (simp add: date_range_def)
  have "day e \<le> cutoff" if "e \<in> set (daily_data_for_forecast daily_data cutoff)" for e
  proof -
    from that have "day e \<in> set (map day (daily_data_for_forecast daily_data cutoff))"
      by simp
    then show ?thesis unfolding training_frame_days[OF assms(1) c] by simp
  qed
  with contiguous_bounds(2,3)[OF assms(1) c] training_frame_days[OF assms(1) c]
    training_frame_eq[OF assms(1) c]
  show ?thesis by (simp add: date_range_def)
qed

theorem training_frame_span_witness:
  "[\<lparr>day = 10, qty = Fin 8, amt = Fin 80\<rparr>, \<lparr>day = 11, qty = Fin 2, amt = Fin 20\<rparr>,
    \<lparr>day = 12, qty = Fin 4, amt = Fin 40\<rparr>] \<noteq> []
   \<and> map day [\<lparr>day = 10, qty = Fin 8, amt = Fin 80\<rparr>, \<lparr>day = 11, qty = Fin 2, amt = Fin 20\<rparr>,
              \<lparr>day = 12, qty = Fin 4, amt = Fin 40\<rparr>] = date_range 10 12
   \<and> daily_data_for_forecast
       [\<lparr>day = 10, qty = Fin 8, amt = Fin 80\<rparr>, \<lparr>day = 11, qty = Fin 2, amt = Fin 20\<rparr>,
        \<lparr>day = 12, qty = Fin 4, amt = Fin 40\<rparr>] 14
     = [\<lparr>day = 10, qty = Fin 8, amt = Fin 80\<rparr>, \<lparr>day = 11, qty = Fin 2, amt = Fin 20\<rparr>,
        \<lparr>day = 12, qty = Fin 4, amt = Fin 40\<rparr>, \<lparr>day = 13, qty = Fin 0, amt = Fin 0\<rparr>,
        \<lparr>day = 14, qty = Fin 0, amt = Fin 0\<rparr>]
   \<and> daily_data_for_forecast
       [\<lparr>day = 10, qty = Fin 8, amt = Fin 80\<rparr>, \<lparr>day = 11, qty = Fin 2, amt = Fin 20\<rparr>,
        \<lparr>day = 12, qty = Fin 4, amt = Fin 40\<rparr>] 11
     = [\<lparr>day = 10, qty = Fin 8, amt = Fin 80\<rparr>, \<lparr>day = 11, qty = Fin 2, amt = Fin 20\<rparr>]"
proof -
  let ?d = "[\<lparr>day = 10, qty = Fin 8, amt = Fin 80\<rparr>, \<lparr>day = 11, qty = Fin 2, amt = Fin 20\<rparr>,
             \<lparr>day = 12, qty = Fin 4, amt = Fin 40\<rparr>]"
  have h1: "?d \<noteq> []" by simp
  have h2: "map day ?d = date_range 10 12" by (simp add: date_range_def)
  from training_frame_span[OF h1 h2, of 14] training_frame_span[OF h1 h2, of 11] h2
  show ?thesis by (simp add: date_range_def fillna_entry_def fillna0_def)
qed

section \<open>Properties of the horizon\<close>




section \<open>Properties of the result table\<close>

lemma filter_ge_upto: "filter (\<lambda>d. s \<le> d) [a..b] = [max a s..b]"
proof (induction a b rule: upto.induct)
  case (1 i j)
  show ?case
  proof (cases "i \<le> j")
    case True
    then have u: "[i..j] = i # [i + 1..j]" by (simp add: upto_rec1)
    show ?thesis
    proof (cases "s \<le> i")
      case True
      with 1[OF \<open>i \<le> j\<close>] u show ?thesis by (simp add: max_def)
    next
      case False
      with 1[OF \<open>i \<le> j\<close>] u show ?thesis by (simp add: max_def)
    qed
  next
    case False
    then show ?thesis by simp
  qed
qed

lemma take_upto: "0 \<le> n \<Longrightarrow> take (nat n) [a..b] = [a..min b (a + n - 1)]"
  by (auto simp: list_eq_iff_nth_eq min_def)

lemma upto_append: "a \<le> b + 1 \<Longrightarrow> 0 \<le> n \<Longrightarrow> [a..b] @ [b + 1..b + n] = [a..b + n]"
  by (auto simp: list_eq_iff_nth_eq nth_append)

lemma sort_remdups_upto: "sort (remdups [a..b]) = [a..b]"
  by (simp add: distinct_remdups_id sort_key_id_if_sorted)

lemma seasonal_future:
  assumes "map fst series = [lo..cutoff]" "lo \<le> cutoff" "0 \<le> periods"
  shows "make_future_dataframe series periods = [lo..cutoff + periods]"
proof -
  have "col_max [lo..cutoff] = cutoff"
    using assms(2) by (simp add: col_max_Max) (auto intro: Max_eqI)
  with assms show ?thesis
    by (simp add: make_future_dataframe_def sort_remdups_upto date_range_def upto_append)
qed

lemma seasonal_run:
  assumes "map fst series = [lo..cutoff]" "lo \<le> cutoff" "0 \<le> periods"
      and "lo \<le> start" "start \<le> end"
  shows "run_call bk (ProphetCall series periods) start (forecast_days start end) =
           map (prophet_yhat bk series) [start..min end (cutoff + periods)]"
proof -
  let ?f = "prophet_yhat bk series"
  have fd: "forecast_days start end = end - start + 1" by (simp add: forecast_days_def)
  have "map snd (filter (\<lambda>(ds, yhat). start \<le> ds)
          (map (\<lambda>ds. (ds, ?f ds)) [lo..cutoff + periods]))
        = map ?f (filter (\<lambda>d. start \<le> d) [lo..cutoff + periods])"
    by (simp add: filter_map comp_def)
  also have "\<dots> = map ?f [start..cutoff + periods]"
    using assms(4) by (simp add: filter_ge_upto max_def)
  finally have ff: "map snd (filter (\<lambda>(ds, yhat). start \<le> ds)
          (map (\<lambda>ds. (ds, ?f ds)) [lo..cutoff + periods])) = map ?f [start..cutoff + periods]" .
  have tk: "(if end - start + 1 \<le> int (length (map ?f [start..cutoff + periods]))
         then take (nat (end - start + 1)) (map ?f [start..cutoff + periods])
         else map ?f [start..cutoff + periods])
        = map ?f [start..min end (cutoff + periods)]"
  proof (cases "end - start + 1 \<le> int (length (map ?f [start..cutoff + periods]))")
    case True
    with assms(5) have "end \<le> cutoff + periods" by (simp split: if_splits)
    with True assms(5) show ?thesis
      by (simp add: take_map take_upto min_def)
  next
    case False
    with assms(5) have "cutoff + periods < end" by (simp split: if_splits)
    with False show ?thesis by (simp add: min_def)
  qed
  show ?thesis
    by (simp only: run_call.simps Let_def seasonal_future[OF assms(1-3)] ff fd tk)
qed

lemma other_run_length:
  assumes "call = ArimaCall y n \<or> call = LinregCall y n" "0 \<le> n"
  shows "length (run_call bk call start fdays) = nat n"
  using assms by (auto simp: Let_def)

lemma forecast_df_dates:
  "map fst (forecast_df ds fq fa) = take (min (length fq) (length fa)) ds"
  by (simp add: forecast_df_def Let_def min_def take_all)

lemma forecast_df_full:
  assumes "length fq = length ds" "length fa = length ds"
  shows "forecast_df ds fq fa = zip ds (zip fq fa)"
  using assms by (simp add: forecast_df_def)

lemma zip_map3: "zip ds (zip (map f ds) (map g ds)) = map (\<lambda>d. (d, f d, g d)) ds"
  by (induction ds) simp_all

lemma take_length_upto: "m \<le> e \<Longrightarrow> take (length [s..m]) [s..e] = [s..m]"
proof (cases "0 \<le> m - s + 1")
  case True
  assume "m \<le> e"
  with True take_upto[OF True, of s e] show ?thesis by (simp add: min_def)
next
  case False
  then show ?thesis by simp
qed

lemma days_to_forecast_end_nonneg:
  "start \<le> end \<Longrightarrow> 0 \<le> days_to_forecast_end daily_data start end"
  by (simp add: days_to_forecast_end_def forecast_days_def Let_def)

lemma seasonal_table:
  assumes "daily_data \<noteq> []" "map day daily_data = [lo..hi]"
      and "lo \<le> data_end_date ui" "data_end_date ui \<le> start_date ui"
      and "start_date ui \<le> end_date ui" "run_forecast ui" "seasonal_branch ui"
      and "fit_error bk (quantity_call ui daily_data) = None"
      and "fit_error bk (amount_call ui daily_data) = None"
  shows "forecast_table bk ui daily_data =
     (if start_date ui
           \<le> data_end_date ui + days_to_forecast_end daily_data (start_date ui) (end_date ui)
      then Inr (Some (map (\<lambda>d. (d,
                 max (prophet_yhat bk
                        (quantity_series (daily_data_for_forecast daily_data (data_end_date ui))) d) 0,
                 max (prophet_yhat bk
                        (amount_series (daily_data_for_forecast daily_data (data_end_date ui))) d) 0))
             [start_date ui..
              min (end_date ui)
                  (data_end_date ui
                   + days_to_forecast_end daily_data (start_date ui) (end_date ui))]))
      else Inl ValueError)"
proof -
  let ?tr = "daily_data_for_forecast daily_data (data_end_date ui)"
  let ?P = "days_to_forecast_end daily_data (start_date ui) (end_date ui)"
  let ?D = "[start_date ui..min (end_date ui) (data_end_date ui + ?P)]"
  have days: "map day ?tr = [lo..data_end_date ui]"
    by (rule training_frame_days[OF assms(1,2)])
  then have q1: "map fst (quantity_series ?tr) = [lo..data_end_date ui]"
    and a1: "map fst (amount_series ?tr) = [lo..data_end_date ui]"
    by (simp_all add: quantity_series_def amount_series_def comp_def)
  have P: "0 \<le> ?P" by (rule days_to_forecast_end_nonneg[OF assms(5)])
  from assms(3,4) have ls: "lo \<le> start_date ui" by simp
  from assms(7) have qc: "quantity_call ui daily_data = ProphetCall (quantity_series ?tr) ?P"
    and ac: "amount_call ui daily_data = ProphetCall (amount_series ?tr) ?P"
    by (simp_all add: quantity_call_def amount_call_def model_call_def seasonal_branch_def)
  have fq: "forecast_quantity bk ui daily_data =
              map (\<lambda>d. max (prophet_yhat bk (quantity_series ?tr) d) 0) ?D"
    unfolding forecast_quantity_def qc seasonal_run[OF q1 assms(3) P ls assms(5)]
    by (simp add: clip0_def)
  have fa: "forecast_amount bk ui daily_data =
              map (\<lambda>d. max (prophet_yhat bk (amount_series ?tr) d) 0) ?D"
    unfolding forecast_amount_def ac seasonal_run[OF a1 assms(3) P ls assms(5)]
    by (simp add: clip0_def)
  have len: "length ?D \<le> length [start_date ui..end_date ui]" by simp
  have tk: "take (length ?D) [start_date ui..end_date ui] = ?D"
    by (rule take_length_upto) simp
  have df: "forecast_df [start_date ui..end_date ui]
          (map (\<lambda>d. max (prophet_yhat bk (quantity_series ?tr) d) 0) ?D)
          (map (\<lambda>d. max (prophet_yhat bk (amount_series ?tr) d) 0) ?D)
        = zip ?D (zip (map (\<lambda>d. max (prophet_yhat bk (quantity_series ?tr) d) 0) ?D)
                      (map (\<lambda>d. max (prophet_yhat bk (amount_series ?tr) d) 0) ?D))"
    using len tk unfolding forecast_df_def Let_def
    by (simp only: length_map min.idem min_absorb2 take_all order_refl)
  have e: "?D = [] \<longleftrightarrow> \<not> start_date ui \<le> data_end_date ui + ?P"
    using assms(5) by auto
  show ?thesis
    using assms(6,8,9) e df
    by (simp add: forecast_table_def fq fa date_range_def zip_map3)
qed

lemma other_table:
  assumes "start_date ui \<le> end_date ui" "run_forecast ui" "\<not> seasonal_branch ui"
      and "fit_error bk (quantity_call ui daily_data) = None"
      and "fit_error bk (amount_call ui daily_data) = None"
  shows "forecast_table bk ui daily_data =
           Inr (Some (zip [start_date ui..end_date ui]
                        (zip (forecast_quantity bk ui daily_data)
                             (forecast_amount bk ui daily_data))))"
    and "length (forecast_quantity bk ui daily_data) = length [start_date ui..end_date ui]"
    and "length (forecast_amount bk ui daily_data) = length [start_date ui..end_date ui]"
proof -
  let ?n = "forecast_days (start_date ui) (end_date ui)"
  from assms(1) have n: "0 \<le> ?n" "nat ?n = length [start_date ui..end_date ui]"
    by (simp_all add: forecast_days_def)
  let ?qy = "map snd (quantity_series (daily_data_for_forecast daily_data (data_end_date ui)))"
  let ?ay = "map snd (amount_series (daily_data_for_forecast daily_data (data_end_date ui)))"
  from assms(3) have "quantity_call ui daily_data = ArimaCall ?qy ?n
      \<or> quantity_call ui daily_data = LinregCall ?qy ?n"
    by (simp add: quantity_call_def model_call_def seasonal_branch_def)
  from other_run_length[OF this n(1)] n(2)
  show q: "length (forecast_quantity bk ui daily_data) = length [start_date ui..end_date ui]"
    by (simp add: forecast_quantity_def clip0_def)
  from assms(3) have "amount_call ui daily_data = ArimaCall ?ay ?n
      \<or> amount_call ui daily_data = LinregCall ?ay ?n"
    by (simp add: amount_call_def model_call_def seasonal_branch_def)
  from other_run_length[OF this n(1)] n(2)
  show a: "length (forecast_amount bk ui daily_data) = length [start_date ui..end_date ui]"
    by (simp add: forecast_amount_def clip0_def)
  from a assms(1) have ne: "forecast_amount bk ui daily_data \<noteq> []" by auto
  from forecast_df_full[OF q a] assms(2,4,5) ne
  show "forecast_table bk ui daily_data =
           Inr (Some (zip [start_date ui..end_date ui]
                        (zip (forecast_quantity bk ui daily_data)
                             (forecast_amount bk ui daily_data))))"
    by (simp add: forecast_table_def date_range_def)
qed

text \<open>
  In the ARIMA and regression branches the table has exactly the days of the window,
  whatever the chosen last day is.
\<close>

lemma other_table_dates:
  assumes "start_date ui \<le> end_date ui" "run_forecast ui" "\<not> seasonal_branch ui"
      and "fit_error bk (quantity_call ui daily_data) = None"
      and "fit_error bk (amount_call ui daily_data) = None"
  shows "\<exists>t. forecast_table bk ui daily_data = Inr (Some t)
           \<and> map fst t = date_range (start_date ui) (end_date ui)"
  using other_table[OF assms] by (simp add: date_range_def)

text \<open>
  C3 on a seasonal run with the window 2025-01-01 to 2025-01-30, on data for every day
  of December 2024 and 2024-12-30 as the chosen last day. The periods are counted from
  the last data date (2024-12-31), which gives 30, but the future frame continues the
  training frame, which ends on the chosen last day: it ends on 2025-01-29, all
  predictions asked for are returned, and the table has the 29 rows for 2025-01-01 to
  2025-01-29 instead of the 30 rows of the window.
\<close>

theorem seasonal_window_short:
  "periods_requested
     (quantity_call
        \<lparr>selected_model = Prophet, prophet_available = True, arima_available = True,
         data_end_date = ymd 2024 12 30, start_choice = ByDate (ymd 2025 1 1),
         end_date = ymd 2025 1 30, run_forecast = True\<rparr>
        (map (\<lambda>d. \<lparr>day = d, qty = Fin 2, amt = Fin 20\<rparr>) (date_range (ymd 2024 12 1) (ymd 2024 12 31))))
     = 30
   \<and> map day (daily_data_for_forecast
        (map (\<lambda>d. \<lparr>day = d, qty = Fin 2, amt = Fin 20\<rparr>) (date_range (ymd 2024 12 1) (ymd 2024 12 31)))
        (ymd 2024 12 30))
     = date_range (ymd 2024 12 1) (ymd 2024 12 30)
   \<and> forecast_table
        \<lparr>prophet_yhat = (\<lambda>s d. 1), arima_step = (\<lambda>y k. 1), linreg_value = (\<lambda>xy x. 1),
         fit_error = (\<lambda>c. None)\<rparr>
        \<lparr>selected_model = Prophet, prophet_available = True, arima_available = True,
         data_end_date = ymd 2024 12 30, start_choice = ByDate (ymd 2025 1 1),
         end_date = ymd 2025 1 30, run_forecast = True\<rparr>
        (map (\<lambda>d. \<lparr>day = d, qty = Fin 2, amt = Fin 20\<rparr>) (date_range (ymd 2024 12 1) (ymd 2024 12 31)))
     = Inr (Some (map (\<lambda>d. (d, 1, 1)) (date_range (ymd 2025 1 1) (ymd 2025 1 29))))
   \<and> length (date_range (ymd 2025 1 1) (ymd 2025 1 29)) = 29"
proof -
  let ?bk = "\<lparr>prophet_yhat = (\<lambda>s d. 1), arima_step = (\<lambda>y k. 1),
              linreg_value = (\<lambda>xy x. 1), fit_error = (\<lambda>c. None)\<rparr> :: backends"
  let ?ui = "\<lparr>selected_model = Prophet, prophet_available = True, arima_available = True,
            data_end_date = ymd 2024 12 30, start_choice = ByDate (ymd 2025 1 1),
            end_date = ymd 2025 1 30, run_forecast = True\<rparr>"
  let ?d = "map (\<lambda>d. \<lparr>day = d, qty = Fin 2, amt = Fin 20\<rparr>)
              (date_range (ymd 2024 12 1) (ymd 2024 12 31))"
  have w: "ymd 2024 12 1 = 739221" "ymd 2024 12 30 = 739250" "ymd 2024 12 31 = 739251"
    "ymd 2025 1 1 = 739252" "ymd 2025 1 29 = 739280" "ymd 2025 1 30 = 739281"
    by (simp_all add: calendar_defs)
  have h2: "map day ?d = [ymd 2024 12 1..ymd 2024 12 31]"
    by (simp add: date_range_def comp_def)
  have h1: "?d \<noteq> []" by (simp add: date_range_def w)
  have s: "start_date ?ui = ymd 2025 1 1" by (simp add: start_date_def)
  have h3: "ymd 2024 12 1 \<le> data_end_date ?ui" "data_end_date ?ui \<le> start_date ?ui"
    "start_date ?ui \<le> end_date ?ui"
    unfolding s by (simp_all add: w)
  have h4: "run_forecast ?ui" "seasonal_branch ?ui" by (simp_all add: seasonal_branch_def)
  have h5: "fit_error ?bk (quantity_call ?ui ?d) = None"
    "fit_error ?bk (amount_call ?ui ?d) = None" by simp_all
  have p: "days_to_forecast_end ?d (start_date ?ui) (end_date ?ui) = 30"
    unfolding days_to_forecast_end_def contiguous_bounds(3)[OF h1 h2]
    by (simp add: w)
  have pr: "periods_requested (quantity_call ?ui ?d) = 30"
    using p by (simp add: quantity_call_def model_call_def)
  have tr: "map day (daily_data_for_forecast ?d (ymd 2024 12 30))
      = date_range (ymd 2024 12 1) (ymd 2024 12 30)"
    using training_frame_days[OF h1 h2] by (simp add: date_range_def)
  have m: "min (end_date ?ui) (data_end_date ?ui + 30) = ymd 2025 1 29"
    "start_date ?ui \<le> data_end_date ?ui + 30"
    unfolding s by (simp_all add: w)
  have c: "ymd 2025 1 1 \<le> ymd 2024 12 30 + 30" by (simp add: w)
  have t: "forecast_table ?bk ?ui ?d
      = Inr (Some (map (\<lambda>d. (d, 1, 1)) (date_range (ymd 2025 1 1) (ymd 2025 1 29))))"
    using seasonal_table[OF h1 h2 h3 h4 h5] c unfolding p unfolding m unfolding s
    by (simp add: date_range_def)
  have l: "length (date_range (ymd 2025 1 1) (ymd 2025 1 29)) = 29"
    by (simp add: date_range_def w)
  from pr tr t l show ?thesis by (intro conjI)
qed

text \<open>
  The two other branches on the same data and settings give the 30 rows of the window.
\<close>

lemma other_branches_full_window:
  assumes "m = ARIMA \<or> m = LinearRegression"
  shows "\<exists>t. forecast_table
           \<lparr>prophet_yhat = (\<lambda>s d. 1), arima_step = (\<lambda>y k. 1), linreg_value = (\<lambda>xy x. 1),
            fit_error = (\<lambda>c. None)\<rparr>
           \<lparr>selected_model = m, prophet_available = True, arima_available = True,
            data_end_date = ymd 2024 12 30, start_choice = ByDate (ymd 2025 1 1),
            end_date = ymd 2025 1 30, run_forecast = True\<rparr>
           (map (\<lambda>d. \<lparr>day = d, qty = Fin 2, amt = Fin 20\<rparr>)
              (date_range (ymd 2024 12 1) (ymd 2024 12 31)))
         = Inr (Some t)
       \<and> map fst t = date_range (ymd 2025 1 1) (ymd 2025 1 30) \<and> length t = 30"
proof -
  let ?bk = "\<lparr>prophet_yhat = (\<lambda>s d. 1), arima_step = (\<lambda>y k. 1),
              linreg_value = (\<lambda>xy x. 1), fit_error = (\<lambda>c. None)\<rparr> :: backends"
  let ?ui = "\<lparr>selected_model = m, prophet_available = True, arima_available = True,
            data_end_date = ymd 2024 12 30, start_choice = ByDate (ymd 2025 1 1),
            end_date = ymd 2025 1 30, run_forecast = True\<rparr>"
  let ?d = "map (\<lambda>d. \<lparr>day = d, qty = Fin 2, amt = Fin 20\<rparr>)
              (date_range (ymd 2024 12 1) (ymd 2024 12 31))"
  have w: "ymd 2025 1 1 = 739252" "ymd 2025 1 30 = 739281" by (simp_all add: calendar_defs)
  have s: "start_date ?ui = ymd 2025 1 1" "end_date ?ui = ymd 2025 1 30"
    by (simp_all add: start_date_def)
  have h: "start_date ?ui \<le> end_date ?ui" "run_forecast ?ui" "\<not> seasonal_branch ?ui"
    "fit_error ?bk (quantity_call ?ui ?d) = None" "fit_error ?bk (amount_call ?ui ?d) = None"
    using assms unfolding s by (auto simp: w seasonal_branch_def)
  from other_table_dates[OF h] obtain t where t: "forecast_table ?bk ?ui ?d = Inr (Some t)"
    and f: "map fst t = date_range (start_date ?ui) (end_date ?ui)" by blast
  from f have "length t = length (date_range (start_date ?ui) (end_date ?ui))"
    by (metis length_map)
  then have "length t = 30" unfolding s by (simp add: date_range_def w)
  with t f show ?thesis unfolding s by blast
qed

text \<open>
  The ARIMA and the regression branch do not select predictions by date: the steps
  right after the training frame are written to the days of the window. With 60 days
  of data up to day 69 as training frame and the window 80 to 82, the row of day 80
  carries step 0, the prediction for day 70.
\<close>

lemma arima_rows_by_position:
  "forecast_table
     \<lparr>prophet_yhat = (\<lambda>s d. 1), arima_step = (\<lambda>y k. 100 + real k), linreg_value = (\<lambda>xy x. 1),
      fit_error = (\<lambda>c. None)\<rparr>
     \<lparr>selected_model = ARIMA, prophet_available = True, arima_available = True,
      data_end_date = 69, start_choice = ByDate 80, end_date = 82, run_forecast = True\<rparr>
     (map (\<lambda>d. \<lparr>day = d, qty = Fin 2, amt = Fin 20\<rparr>) (date_range 10 69))
   = Inr (Some [(80, 100, 100), (81, 101, 101), (82, 102, 102)])"
  by (simp add: forecast_table_def forecast_df_def forecast_quantity_def forecast_amount_def
      quantity_call_def amount_call_def model_call_def start_date_def forecast_days_def
      clip0_def date_range_def eval_nat_numeral)

text \<open>
  When the future frame of the seasonal branch ends before the window starts, both
  forecasts are empty and the script raises \<open>ValueError\<close> after showing the empty table:
  data for the days 10 to 69, the chosen last day 59, the window 80 to 85.
\<close>

lemma seasonal_empty_raises:
  "forecast_table
     \<lparr>prophet_yhat = (\<lambda>s d. 1), arima_step = (\<lambda>y k. 1), linreg_value = (\<lambda>xy x. 1),
      fit_error = (\<lambda>c. None)\<rparr>
     \<lparr>selected_model = Prophet, prophet_available = True, arima_available = True,
      data_end_date = 59, start_choice = ByDate 80, end_date = 85, run_forecast = True\<rparr>
     (map (\<lambda>d. \<lparr>day = d, qty = Fin 2, amt = Fin 20\<rparr>) (date_range 10 69))
   = Inl ValueError"
proof -
  let ?bk = "\<lparr>prophet_yhat = (\<lambda>s d. 1), arima_step = (\<lambda>y k. 1),
              linreg_value = (\<lambda>xy x. 1), fit_error = (\<lambda>c. None)\<rparr> :: backends"
  let ?ui = "\<lparr>selected_model = Prophet, prophet_available = True, arima_available = True,
      data_end_date = 59, start_choice = ByDate 80, end_date = 85, run_forecast = True\<rparr>"
  let ?d = "map (\<lambda>d. \<lparr>day = d, qty = Fin 2, amt = Fin 20\<rparr>) (date_range 10 69)"
  have h2: "map day ?d = [10..69]" by (simp add: date_range_def comp_def)
  have h1: "?d \<noteq> []" by (simp add: date_range_def)
  have s: "start_date ?ui = 80" by (simp add: start_date_def)
  have h3: "10 \<le> data_end_date ?ui" "data_end_date ?ui \<le> start_date ?ui"
    "start_date ?ui \<le> end_date ?ui"
    unfolding s by simp_all
  have h4: "run_forecast ?ui" "seasonal_branch ?ui" by (simp_all add: seasonal_branch_def)
  have h5: "fit_error ?bk (quantity_call ?ui ?d) = None"
    "fit_error ?bk (amount_call ?ui ?d) = None" by simp_all
  have p: "days_to_forecast_end ?d (start_date ?ui) (end_date ?ui) = 16"
    unfolding days_to_forecast_end_def contiguous_bounds(3)[OF h1 h2]
    by simp
  have m: "\<not> start_date ?ui \<le> data_end_date ?ui + 16" unfolding s by simp
  show ?thesis
    using seasonal_table[OF h1 h2 h3 h4 h5] unfolding p using m by simp
qed

section \<open>Properties of the filters\<close>

lemma set_unique: "set (unique xs) = set xs"
proof (induction xs rule: unique.induct)
  case 1
  then show ?case by simp
next
  case (2 x xs)
  then show ?case by auto
qed

lemma startswith_label:
  "startswith dash_sep (c @ dash_sep @ n) = startswith dash_sep (c @ dash_sep)"
proof (cases c)
  case Nil
  then show ?thesis by (simp add: dash_sep_def)
next
  case (Cons x xs)
  show ?thesis
  proof (cases xs)
    case Nil
    with Cons show ?thesis by (simp add: dash_sep_def)
  next
    case (Cons y ys)
    with \<open>c = x # xs\<close> show ?thesis by (cases ys) (simp_all add: dash_sep_def)
  qed
qed

lemma split_first_label:
  "split_first dash_sep (c @ dash_sep @ n) = split_first dash_sep (c @ dash_sep)"
proof (induction c)
  case Nil
  then show ?case by (simp add: dash_sep_def)
next
  case (Cons x xs)
  have "startswith dash_sep ((x # xs) @ dash_sep @ n)
          = startswith dash_sep ((x # xs) @ dash_sep)"
    by (rule startswith_label)
  with Cons show ?case by simp
qed

lemma split_first_code:
  "\<not> contains [32, 45] c \<Longrightarrow> split_first dash_sep (c @ dash_sep) = c"
proof (induction c)
  case Nil
  then show ?case by (simp add: dash_sep_def)
next
  case (Cons x xs)
  then have IH: "split_first dash_sep (xs @ dash_sep) = xs"
    and ns: "\<not> startswith [32, 45] (x # xs)" by simp_all
  have "\<not> startswith dash_sep (x # xs @ dash_sep)"
    using ns by (cases xs) (auto simp: dash_sep_def)
  with IH show ?case by simp
qed

lemma label_not_sentinel:
  "c @ dash_sep @ n \<noteq> all_departments" "c @ dash_sep @ n \<noteq> all_order_methods"
  "c @ dash_sep @ n \<noteq> all_products"
proof -
  have "45 \<in> set (c @ dash_sep @ n)" by (simp add: dash_sep_def)
  moreover have "45 \<notin> set all_departments" "45 \<notin> set all_order_methods"
    "45 \<notin> set all_products"
    by (simp_all add: all_departments_def all_order_methods_def all_products_def)
  ultimately show "c @ dash_sep @ n \<noteq> all_departments"
    "c @ dash_sep @ n \<noteq> all_order_methods" "c @ dash_sep @ n \<noteq> all_products"
    by metis+
qed

lemma filter_by_department_codes:
  "sel \<noteq> [] \<Longrightarrow> all_departments \<notin> set sel \<Longrightarrow>
   filter_by_department df sel = filter (\<lambda>r. strip (dept_code r) \<in> split_first dash_sep ` set sel) df"
  by (simp add: filter_by_department_def)

lemma filter_by_order_method_codes:
  "sel \<noteq> [] \<Longrightarrow> all_order_methods \<notin> set sel \<Longrightarrow>
   filter_by_order_method df sel = filter (\<lambda>r. strip (order_code r) \<in> split_first dash_sep ` set sel) df"
  by (simp add: filter_by_order_method_def)

lemma filter_by_product_codes:
  "sel \<noteq> [] \<Longrightarrow> all_products \<notin> set sel \<Longrightarrow>
   filter_by_product df sel =
     daily_aggregate (filter (\<lambda>r. strip (product_code r) \<in> split_first dash_sep ` set sel) df)"
  by (simp add: filter_by_product_def daily_aggregate_def)

lemma filter_by_product_all:
  "sel = [] \<or> all_products \<in> set sel \<Longrightarrow> filter_by_product df sel = daily_aggregate df"
  by (auto simp: filter_by_product_def daily_aggregate_def)

lemma own_label_selects:
  assumes "\<forall>r \<in> set df. split_first dash_sep (strip (code r) @ dash_sep) = strip (code r)"
  shows "filter (\<lambda>r. strip (code r)
            \<in> split_first dash_sep ` set (unique (map (\<lambda>r. strip (code r) @ dash_sep @ strip (name r)) df)))
          df = df"
proof -
  have "strip (code r) \<in> split_first dash_sep `
          set (unique (map (\<lambda>r. strip (code r) @ dash_sep @ strip (name r)) df))"
    if "r \<in> set df" for r
  proof -
    from that assms have "split_first dash_sep (strip (code r) @ dash_sep @ strip (name r))
        = strip (code r)"
      by (simp add: split_first_label)
    moreover from that have "strip (code r) @ dash_sep @ strip (name r)
        \<in> set (unique (map (\<lambda>r. strip (code r) @ dash_sep @ strip (name r)) df))"
      by (simp add: set_unique)
    ultimately show ?thesis by (metis imageI)
  qed
  then show ?thesis by simp
qed

lemma unique_labels_no_sentinel:
  "all_departments \<notin> set (unique (map dept_label df))"
  "all_order_methods \<notin> set (unique (map order_label df))"
  "all_products \<notin> set (unique (map product_label df))"
  using label_not_sentinel[THEN not_sym]
  by (auto simp: set_unique dept_label_def order_label_def product_label_def)

lemma unique_Nil: "unique xs = [] \<longleftrightarrow> xs = []"
  by (cases xs) simp_all

lemma full_labels_department:
  assumes "\<forall>r \<in> set df.
             split_first dash_sep (strip (dept_code r) @ dash_sep) = strip (dept_code r)"
  shows "filter_by_department df (unique (map dept_label df)) = df"
proof (cases "df = []")
  case True
  then show ?thesis by (simp add: filter_by_department_def)
next
  case False
  then have ne: "unique (map dept_label df) \<noteq> []" by (simp add: unique_Nil)
  have l: "map dept_label df = map (\<lambda>r. strip (dept_code r) @ dash_sep @ strip (dept_name r)) df"
    by (simp add: dept_label_def)
  have "filter_by_department df (unique (map dept_label df))
      = filter (\<lambda>r. strip (dept_code r)
                  \<in> split_first dash_sep ` set (unique (map dept_label df))) df"
    by (rule filter_by_department_codes[OF ne unique_labels_no_sentinel(1)])
  also have "\<dots> = df" unfolding l by (rule own_label_selects[OF assms])
  finally show ?thesis .
qed

lemma full_labels_order_method:
  assumes "\<forall>r \<in> set df.
             split_first dash_sep (strip (order_code r) @ dash_sep) = strip (order_code r)"
  shows "filter_by_order_method df (unique (map order_label df)) = df"
proof (cases "df = []")
  case True
  then show ?thesis by (simp add: filter_by_order_method_def)
next
  case False
  then have ne: "unique (map order_label df) \<noteq> []" by (simp add: unique_Nil)
  have l: "map order_label df = map (\<lambda>r. strip (order_code r) @ dash_sep @ strip (order_name r)) df"
    by (simp add: order_label_def)
  have "filter_by_order_method df (unique (map order_label df))
      = filter (\<lambda>r. strip (order_code r)
                  \<in> split_first dash_sep ` set (unique (map order_label df))) df"
    by (rule filter_by_order_method_codes[OF ne unique_labels_no_sentinel(2)])
  also have "\<dots> = df" unfolding l by (rule own_label_selects[OF assms])
  finally show ?thesis .
qed

lemma full_labels_product:
  assumes "\<forall>r \<in> set df.
             split_first dash_sep (strip (product_code r) @ dash_sep) = strip (product_code r)"
  shows "filter_by_product df (unique (map product_label df)) = daily_aggregate df"
proof (cases "df = []")
  case True
  then show ?thesis by (simp add: filter_by_product_all)
next
  case False
  then have ne: "unique (map product_label df) \<noteq> []" by (simp add: unique_Nil)
  have l: "map product_label df
             = map (\<lambda>r. strip (product_code r) @ dash_sep @ strip (product_name r)) df"
    by (simp add: product_label_def)
  have "filter (\<lambda>r. strip (product_code r)
                  \<in> split_first dash_sep ` set (unique (map product_label df))) df = df"
    unfolding l by (rule own_label_selects[OF assms])
  with filter_by_product_codes[OF ne unique_labels_no_sentinel(3), of df]
  show ?thesis by simp
qed

text \<open>
  On every axis an empty selection or one that contains the sentinel passes the record
  set through unchanged (on the product axis: aggregates all of it).
\<close>

lemma all_selection_passes:
  "sel = [] \<or> all_departments \<in> set sel \<Longrightarrow> filter_by_department df sel = df"
  "sel = [] \<or> all_order_methods \<in> set sel \<Longrightarrow> filter_by_order_method df sel = df"
  "sel = [] \<or> all_products \<in> set sel \<Longrightarrow> filter_by_product df sel = daily_aggregate df"
  by (auto simp: filter_by_department_def filter_by_order_method_def filter_by_product_all)

text \<open>
  Where \<open>split(' - ')[0]\<close> gives back the code of every record from its label (which
  it does for a code without a space followed by a hyphen), filtering with all the
  labels of the axis is the same as filtering with the sentinel.
\<close>

lemma full_labels_same:
  "\<forall>r \<in> set df. split_first dash_sep (strip (dept_code r) @ dash_sep) = strip (dept_code r)
     \<Longrightarrow> filter_by_department df (unique (map dept_label df))
           = filter_by_department df [all_departments]"
  "\<forall>r \<in> set df. split_first dash_sep (strip (order_code r) @ dash_sep) = strip (order_code r)
     \<Longrightarrow> filter_by_order_method df (unique (map order_label df))
           = filter_by_order_method df [all_order_methods]"
  "\<forall>r \<in> set df. split_first dash_sep (strip (product_code r) @ dash_sep) = strip (product_code r)
     \<Longrightarrow> filter_by_product df (unique (map product_label df))
           = filter_by_product df [all_products]"
  by (simp_all add: full_labels_department full_labels_order_method full_labels_product
      all_selection_passes)

text \<open>
  C5 on a record set whose only record has the department code \<open>'A - 1'\<close> and the
  product code \<open>'P - 1'\<close>. The sentinel keeps the record, and its series has the one
  day. The full label sets are \<open>'A - 1 - X'\<close> and \<open>'P - 1 - cup'\<close>; from them the
  filters take the codes \<open>'A'\<close> and \<open>'P'\<close>, which are not the codes of the record, so
  filtering with the full label set keeps no record and gives the empty series.
\<close>

theorem full_labels_drop_records:
  "unique (map dept_label
       [\<lparr>sale_date = Some 10, quantity = Fin 5, amount = Fin 500,
         dept_code = ascii ''A - 1'', dept_name = ascii ''X'',
         order_code = ascii ''7'', order_name = ascii ''web'',
         product_code = ascii ''P - 1'', product_name = ascii ''cup''\<rparr>])
     = [ascii ''A - 1 - X'']
   \<and> filter_by_department
     [\<lparr>sale_date = Some 10, quantity = Fin 5, amount = Fin 500,
       dept_code = ascii ''A - 1'', dept_name = ascii ''X'',
       order_code = ascii ''7'', order_name = ascii ''web'',
       product_code = ascii ''P - 1'', product_name = ascii ''cup''\<rparr>]
     [ascii ''A - 1 - X''] = []
   \<and> filter_by_department
     [\<lparr>sale_date = Some 10, quantity = Fin 5, amount = Fin 500,
       dept_code = ascii ''A - 1'', dept_name = ascii ''X'',
       order_code = ascii ''7'', order_name = ascii ''web'',
       product_code = ascii ''P - 1'', product_name = ascii ''cup''\<rparr>]
     [all_departments]
     = [\<lparr>sale_date = Some 10, quantity = Fin 5, amount = Fin 500,
         dept_code = ascii ''A - 1'', dept_name = ascii ''X'',
         order_code = ascii ''7'', order_name = ascii ''web'',
         product_code = ascii ''P - 1'', product_name = ascii ''cup''\<rparr>]
   \<and> unique (map product_label
       [\<lparr>sale_date = Some 10, quantity = Fin 5, amount = Fin 500,
         dept_code = ascii ''A - 1'', dept_name = ascii ''X'',
         order_code = ascii ''7'', order_name = ascii ''web'',
         product_code = ascii ''P - 1'', product_name = ascii ''cup''\<rparr>])
     = [ascii ''P - 1 - cup'']
   \<and> filter_by_product
     [\<lparr>sale_date = Some 10, quantity = Fin 5, amount = Fin 500,
       dept_code = ascii ''A - 1'', dept_name = ascii ''X'',
       order_code = ascii ''7'', order_name = ascii ''web'',
       product_code = ascii ''P - 1'', product_name = ascii ''cup''\<rparr>]
     [ascii ''P - 1 - cup''] = []
   \<and> filter_by_product
     [\<lparr>sale_date = Some 10, quantity = Fin 5, amount = Fin 500,
       dept_code = ascii ''A - 1'', dept_name = ascii ''X'',
       order_code = ascii ''7'', order_name = ascii ''web'',
       product_code = ascii ''P - 1'', product_name = ascii ''cup''\<rparr>]
     [all_products] = [\<lparr>day = 10, qty = Fin 5, amt = Fin 500\<rparr>]"
  by (simp add: filter_by_department_def filter_by_product_def string_defs aggregate_defs)

text \<open>
  How a selection without the sentinel is matched: a record is kept exactly when its
  stripped code is the part before the first \<open>' - '\<close> of some selected label. That
  part of a record's label depends on the code only, whatever the name contains, and
  the labels of two records with the same stripped code select the same records.
\<close>

lemma filter_matches_code_segment:
  "(sel \<noteq> [] \<and> all_departments \<notin> set sel \<longrightarrow>
      filter_by_department df sel
        = filter (\<lambda>r. strip (dept_code r) \<in> split_first dash_sep ` set sel) df)
   \<and> (sel \<noteq> [] \<and> all_order_methods \<notin> set sel \<longrightarrow>
      filter_by_order_method df sel
        = filter (\<lambda>r. strip (order_code r) \<in> split_first dash_sep ` set sel) df)
   \<and> (sel \<noteq> [] \<and> all_products \<notin> set sel \<longrightarrow>
      filter_by_product df sel
        = daily_aggregate
            (filter (\<lambda>r. strip (product_code r) \<in> split_first dash_sep ` set sel) df))
   \<and> split_first dash_sep (dept_label r) = split_first dash_sep (strip (dept_code r) @ dash_sep)
   \<and> split_first dash_sep (order_label r) = split_first dash_sep (strip (order_code r) @ dash_sep)
   \<and> split_first dash_sep (product_label r)
       = split_first dash_sep (strip (product_code r) @ dash_sep)
   \<and> (strip (dept_code r) = strip (dept_code r') \<longrightarrow>
        filter_by_department df [dept_label r] = filter_by_department df [dept_label r'])
   \<and> (strip (order_code r) = strip (order_code r') \<longrightarrow>
        filter_by_order_method df [order_label r] = filter_by_order_method df [order_label r'])
   \<and> (strip (product_code r) = strip (product_code r') \<longrightarrow>
        filter_by_product df [product_label r] = filter_by_product df [product_label r'])"
proof -
  have d: "split_first dash_sep (dept_label x) = split_first dash_sep (strip (dept_code x) @ dash_sep)"
    for x by (simp add: dept_label_def split_first_label)
  have o: "split_first dash_sep (order_label x)
             = split_first dash_sep (strip (order_code x) @ dash_sep)"
    for x by (simp add: order_label_def split_first_label)
  have p: "split_first dash_sep (product_label x)
             = split_first dash_sep (strip (product_code x) @ dash_sep)"
    for x by (simp add: product_label_def split_first_label)
  have nd: "all_departments \<notin> set [dept_label x]" for x
    using label_not_sentinel(1)[THEN not_sym] by (simp add: dept_label_def)
  have no: "all_order_methods \<notin> set [order_label x]" for x
    using label_not_sentinel(2)[THEN not_sym] by (simp add: order_label_def)
  have np: "all_products \<notin> set [product_label x]" for x
    using label_not_sentinel(3)[THEN not_sym] by (simp add: product_label_def)
  have sd: "filter_by_department df [dept_label r] = filter_by_department df [dept_label r']"
    if "strip (dept_code r) = strip (dept_code r')"
    using that by (simp add: filter_by_department_codes[OF _ nd] d)
  have so: "filter_by_order_method df [order_label r] = filter_by_order_method df [order_label r']"
    if "strip (order_code r) = strip (order_code r')"
    using that by (simp add: filter_by_order_method_codes[OF _ no] o)
  have sp: "filter_by_product df [product_label r] = filter_by_product df [product_label r']"
    if "strip (product_code r) = strip (product_code r')"
    using that by (simp add: filter_by_product_codes[OF _ np] p)
  from filter_by_department_codes[of sel df] filter_by_order_method_codes[of sel df]
    filter_by_product_codes[of sel df] d[of r] o[of r] p[of r] sd so sp
  show ?thesis by blast
qed

text \<open>
  Where \<open>split(' - ')[0]\<close> gives back the code from the label, selecting the label of
  a record keeps exactly the records with the same stripped code, so two such labels of
  one code select each other's records.
\<close>

lemma own_label_keeps_code:
  assumes "split_first dash_sep (strip (dept_code r) @ dash_sep) = strip (dept_code r)"
  shows "filter_by_department df [dept_label r]
           = filter (\<lambda>x. strip (dept_code x) = strip (dept_code r)) df"
proof -
  have n: "all_departments \<notin> set [dept_label r]"
    using label_not_sentinel(1)[THEN not_sym] by (simp add: dept_label_def)
  have "split_first dash_sep (dept_label r) = strip (dept_code r)"
    using assms by (simp add: dept_label_def split_first_label)
  then show ?thesis by (simp add: filter_by_department_codes[OF _ n])
qed

text \<open>
  C10 on two records with the department codes \<open>'A'\<close> and \<open>'A  - B'\<close>. The label of
  the second record is \<open>'A  - B - n'\<close>; the filter takes \<open>'A '\<close> from it, which is
  neither the code of the second record nor, with its trailing space, the code of the
  first. Selecting the label keeps no record, although the second record has the very
  code of the selected label.
\<close>

theorem selected_label_keeps_nothing:
  "dept_label
     \<lparr>sale_date = Some 12, quantity = Fin 3, amount = Fin 300,
      dept_code = ascii ''A  - B'', dept_name = ascii ''n'',
      order_code = ascii ''7'', order_name = ascii ''web'',
      product_code = ascii ''P-2'', product_name = ascii ''cup''\<rparr> = ascii ''A  - B - n''
   \<and> split_first dash_sep (ascii ''A  - B - n'') = ascii ''A ''
   \<and> strip (split_first dash_sep (ascii ''A  - B - n''))
      = strip (dept_code
          \<lparr>sale_date = Some 10, quantity = Fin 5, amount = Fin 500,
           dept_code = ascii ''A'', dept_name = ascii ''x'',
           order_code = ascii ''7'', order_name = ascii ''web'',
           product_code = ascii ''P-1'', product_name = ascii ''cup''\<rparr>)
   \<and> filter_by_department
        [\<lparr>sale_date = Some 10, quantity = Fin 5, amount = Fin 500,
          dept_code = ascii ''A'', dept_name = ascii ''x'',
          order_code = ascii ''7'', order_name = ascii ''web'',
          product_code = ascii ''P-1'', product_name = ascii ''cup''\<rparr>,
         \<lparr>sale_date = Some 12, quantity = Fin 3, amount = Fin 300,
          dept_code = ascii ''A  - B'', dept_name = ascii ''n'',
          order_code = ascii ''7'', order_name = ascii ''web'',
          product_code = ascii ''P-2'', product_name = ascii ''cup''\<rparr>]
        [ascii ''A  - B - n''] = []"
  by (simp add: filter_by_department_def string_defs)

section \<open>Properties of the label sort\<close>

lemma extract_code_cases:
  "extract_code float_of i = Inl OverflowError
   \<or> extract_code float_of i = Inr (code_key float_of i)"
  by (auto simp: extract_code_def code_key_def Let_def
      split: option.splits sum.splits exn.splits pyfloat.splits)

lemma extract_code_finite:
  assumes "float_of (strip (split_first dash_sep i)) \<notin> {Some PInf, Some NInf}"
  shows "extract_code float_of i = Inr (code_key float_of i)"
proof -
  have "extract_code float_of i \<noteq> Inl OverflowError"
  proof (cases "float_of (strip (split_first dash_sep i))")
    case None
    then show ?thesis by (simp add: extract_code_def)
  next
    case (Some x)
    with assms show ?thesis by (cases x) (simp_all add: extract_code_def)
  qed
  with extract_code_cases[of float_of i] show ?thesis by simp
qed

lemma code_key_value:
  "code_key float_of i =
     (case float_of (strip (split_first dash_sep i)) of
        Some (Fin x) \<Rightarrow> (if 0 \<le> x then \<lfloor>x\<rfloor> else \<lceil>x\<rceil>)
      | _ \<Rightarrow> 0)"
  by (simp add: code_key_def extract_code_def split: option.splits pyfloat.splits)

lemma keyed_total:
  "\<forall>i \<in> set items. key i = Inr (k i) \<Longrightarrow> keyed key items = Inr (map (\<lambda>i. (k i, i)) items)"
  by (induction items) simp_all

lemma keyed_error:
  "i \<in> set items \<Longrightarrow> key i = Inl e \<Longrightarrow> \<exists>e'. keyed key items = Inl e'"
  by (induction items) (auto split: sum.splits)

lemma insort_key_decorated:
  "insort_key fst (k x, x) (map (\<lambda>i. (k i, i)) ys) = map (\<lambda>i. (k i, i)) (insort_key k x ys)"
  by (induction ys) simp_all

lemma sort_key_decorated:
  "sort_key fst (map (\<lambda>i. (k i, i)) xs) = map (\<lambda>i. (k i, i)) (sort_key k xs)"
  by (induction xs) (simp_all add: insort_key_decorated)

lemma sorted_by_total:
  assumes "\<forall>i \<in> set items. key i = Inr (k i)"
  shows "sorted_by key items = Inr (sort_key k items)"
  by (simp add: sorted_by_def keyed_total[OF assms] sort_key_decorated comp_def)

lemma sort_by_code_total:
  assumes "\<forall>i \<in> set items. float_of (strip (split_first dash_sep i)) \<notin> {Some PInf, Some NInf}"
  shows "sort_by_code float_of (all_item # items) True
           = Inr (all_item # sort_key (code_key float_of) items)"
proof -
  have "\<forall>i \<in> set items. extract_code float_of i = Inr (code_key float_of i)"
    using assms extract_code_finite by blast
  from sorted_by_total[OF this] show ?thesis
    by (cases items) (simp_all add: sort_by_code_def sorted_by_def)
qed

text \<open>
  C7 (as amended). For a list that starts with the sentinel, when no code reads as an
  infinite float, the sort returns the sentinel followed by the other labels in
  ascending order of their key, labels of equal key in their input order. The key of a
  label is the numeric value of its code (the part before the first \<open>' - '\<close>,
  stripped) truncated toward zero, and 0 when the code is not numeric or NaN. So a label
  with a non-numeric code comes before every label with a positive key and after every
  label with a negative key.
\<close>

theorem sort_by_code_order:
  assumes "\<forall>i \<in> set items.
             float_of (strip (split_first dash_sep i)) \<notin> {Some PInf, Some NInf}"
  shows "\<exists>sorted_items.
           sort_by_code float_of (all_item # items) True = Inr (all_item # sorted_items)
         \<and> sorted_items = sort_key (code_key float_of) items
         \<and> sorted (map (code_key float_of) sorted_items)
         \<and> set sorted_items = set items \<and> length sorted_items = length items
         \<and> (\<forall>k. filter (\<lambda>i. code_key float_of i = k) sorted_items
                  = filter (\<lambda>i. code_key float_of i = k) items)
         \<and> (\<forall>i \<in> set items.
               code_key float_of i =
                 (case float_of (strip (split_first dash_sep i)) of
                    Some (Fin x) \<Rightarrow> (if 0 \<le> x then \<lfloor>x\<rfloor> else \<lceil>x\<rceil>)
                  | _ \<Rightarrow> 0))
         \<and> (\<forall>m n. m < length sorted_items \<and> n < length sorted_items
                \<and> code_key float_of (sorted_items ! m) < code_key float_of (sorted_items ! n)
                \<longrightarrow> m < n)"
proof -
  let ?s = "sort_key (code_key float_of) items"
  have srt: "sorted (map (code_key float_of) ?s)" by simp
  have ord: "m < n"
    if "m < length ?s" "n < length ?s"
       "code_key float_of (?s ! m) < code_key float_of (?s ! n)" for m n
  proof (rule ccontr)
    assume "\<not> m < n"
    then have "n \<le> m" by simp
    with srt that(1) have "map (code_key float_of) ?s ! n \<le> map (code_key float_of) ?s ! m"
      by (simp add: sorted_iff_nth_mono del: sorted_sort_key)
    with that show False by simp
  qed
  have stable: "filter (\<lambda>i. code_key float_of i = k) ?s
                  = filter (\<lambda>i. code_key float_of i = k) items" for k
    by (rule sort_key_stable)
  from sort_by_code_total[OF assms] srt stable ord code_key_value[of float_of]
  show ?thesis by (intro exI[of _ ?s]) simp
qed

theorem sort_by_code_order_witness:
  "py_float (strip (split_first dash_sep (ascii ''12 - B''))) = Some (Fin 12)
   \<and> py_float (strip (split_first dash_sep (ascii ''N/A - C''))) = None
   \<and> py_float (strip (split_first dash_sep (ascii ''3 - A''))) = Some (Fin 3)
   \<and> sort_by_code py_float
        [all_departments, ascii ''12 - B'', ascii ''N/A - C'', ascii ''3 - A''] True
      = Inr [all_departments, ascii ''N/A - C'', ascii ''3 - A'', ascii ''12 - B'']"
proof -
  let ?items = "[ascii ''12 - B'', ascii ''N/A - C'', ascii ''3 - A'']"
  have f: "py_float (strip (split_first dash_sep (ascii ''12 - B''))) = Some (Fin 12)"
    "py_float (strip (split_first dash_sep (ascii ''N/A - C''))) = None"
    "py_float (strip (split_first dash_sep (ascii ''3 - A''))) = Some (Fin 3)"
    by (simp_all add: string_defs float_defs)
  then have h: "\<forall>i \<in> set ?items.
      py_float (strip (split_first dash_sep i)) \<notin> {Some PInf, Some NInf}" by simp
  have k: "code_key py_float (ascii ''12 - B'') = 12"
    "code_key py_float (ascii ''N/A - C'') = 0"
    "code_key py_float (ascii ''3 - A'') = 3"
    by (simp_all add: code_key_value f)
  from sort_by_code_order[OF h, of all_departments]
  have "sort_by_code py_float (all_departments # ?items) True
      = Inr (all_departments # sort_key (code_key py_float) ?items)" by blast
  also have "sort_key (code_key py_float) ?items
      = [ascii ''N/A - C'', ascii ''3 - A'', ascii ''12 - B'']"
    by (simp add: k)
  finally show ?thesis using f by simp
qed

text \<open>
  C7 as stated fails on a list with a negative code and with codes that differ after
  the decimal point only: the label with a non-numeric code comes after the label with
  code -2, not immediately after the sentinel, and the label with code 1.7 stays before
  the one with code 1.2.
\<close>

theorem sort_by_code_counterexample:
  "sort_by_code py_float
     [all_departments, ascii ''N/A - b'', ascii ''-2 - a'', ascii ''1.7 - c'',
      ascii ''1.2 - d''] True
   = Inr [all_departments, ascii ''-2 - a'', ascii ''N/A - b'', ascii ''1.7 - c'',
          ascii ''1.2 - d'']"
proof -
  have f: "py_float (strip (split_first dash_sep (ascii ''N/A - b''))) = None"
    "py_float (strip (split_first dash_sep (ascii ''-2 - a''))) = Some (Fin (- 2))"
    "py_float (strip (split_first dash_sep (ascii ''1.7 - c''))) = Some (Fin (17 / 10))"
    "py_float (strip (split_first dash_sep (ascii ''1.2 - d''))) = Some (Fin (12 / 10))"
    by (simp_all add: string_defs float_defs)
  have e: "extract_code py_float (ascii ''N/A - b'') = Inr 0"
    "extract_code py_float (ascii ''-2 - a'') = Inr (- 2)"
    "extract_code py_float (ascii ''1.7 - c'') = Inr 1"
    "extract_code py_float (ascii ''1.2 - d'') = Inr 1"
    by (simp_all add: extract_code_def f)
  show ?thesis by (simp add: sort_by_code_def sorted_by_def e)
qed

text \<open>
  A code that reads as an infinite float: \<open>int\<close> raises \<open>OverflowError\<close>, which the
  handler of \<open>extract_code\<close> does not catch, and the sort does not return.
\<close>

lemma sort_by_code_infinite:
  "sort_by_code py_float [all_departments, ascii ''12 - B'', ascii ''inf - C''] True
     = Inl OverflowError"
proof -
  have f: "py_float (strip (split_first dash_sep (ascii ''12 - B''))) = Some (Fin 12)"
    "py_float (strip (split_first dash_sep (ascii ''inf - C''))) = Some PInf"
    by (simp_all add: string_defs float_defs)
  have e: "extract_code py_float (ascii ''12 - B'') = Inr 12"
    "extract_code py_float (ascii ''inf - C'') = Inl OverflowError"
    by (simp_all add: extract_code_def f)
  show ?thesis by (simp add: sort_by_code_def sorted_by_def e)
qed

section \<open>Properties of loading and of the script\<close>

lemma astype_float_error:
  "astype_float float_of ss = Inl e \<Longrightarrow> e = ValueError \<and> (\<exists>s \<in> set ss. float_of s = None)"
  by (induction ss arbitrary: e) (auto split: option.splits sum.splits)

lemma astype_float_fails:
  "\<exists>s \<in> set ss. float_of s = None \<Longrightarrow> astype_float float_of ss = Inl ValueError"
proof (induction ss)
  case Nil
  then show ?case by simp
next
  case (Cons s ss)
  show ?case
  proof (cases "float_of s")
    case None
    then show ?thesis by simp
  next
    case (Some x)
    with Cons.prems have "\<exists>s \<in> set ss. float_of s = None" by auto
    from Cons.IH[OF this] Some show ?thesis by simp
  qed
qed

lemma load_data_amount_error:
  assumes "has_sale_date file" "has_net_amount file"
      and "\<exists>r \<in> set (rows (cells file)).
             float_of (replace_char 44 [] (astype_str (raw_amount r))) = None"
  shows "load_data to_datetime float_of (Readable file) = Inl (LoadError AmountValueError)"
proof -
  from assms(3)
  have "\<exists>s \<in> set (map (\<lambda>r. replace_char 44 [] (astype_str (raw_amount r))) (rows (cells file))).
      float_of s = None" by auto
  from astype_float_fails[OF this] assms(1,2)
  show ?thesis by (simp add: load_data_def)
qed

text \<open>
  The handler also catches what else goes wrong in the load: a file that
  \<open>pd.read_csv\<close> rejects and a missing sale-date, net-amount or quantity column.
\<close>

lemma load_data_other_errors:
  "load_data to_datetime float_of Unreadable = Inl (LoadError ReadError)"
  "\<not> has_sale_date file \<Longrightarrow>
     load_data to_datetime float_of (Readable file) = Inl (LoadError KeyError)"
  "has_sale_date file \<Longrightarrow> \<not> has_net_amount file \<Longrightarrow>
     load_data to_datetime float_of (Readable file) = Inl (LoadError KeyError)"
  by (simp_all add: load_data_def)

lemma app_load_error:
  "load_data to_datetime float_of file = Inl err \<Longrightarrow>
   app to_datetime float_of bk (Some file) sel ui = Inr ([err, UploadPrompt], None)"
  by (simp add: app_def)

text \<open>
  C9 (as amended). In a readable upload with the sale-date and net-amount columns, a
  row whose net-amount cell is not one of the missing-value markers of \<open>pd.read_csv\<close>
  and is rejected by \<open>float\<close> after removing the commas makes the whole load fail:
  \<open>load_data\<close> returns no series and no records, whatever the other rows hold, and the
  only thing shown is the load error followed by the prompt to upload a file; the run
  ends without an exception and without a forecast. (A cell that is a missing-value
  marker, such as \<open>n/a\<close> or an empty cell, is read as NaN and converts.)
\<close>

theorem unparsable_amount_fails_load:
  assumes "has_sale_date file" and "has_net_amount file"
      and "\<exists>r \<in> set (rows (cells file)).
             float_of (replace_char 44 [] (astype_str (raw_amount r))) = None"
  shows "load_data to_datetime float_of (Readable file) = Inl (LoadError AmountValueError)
         \<and> app to_datetime float_of bk (Some (Readable file)) sel ui
             = Inr ([LoadError AmountValueError, UploadPrompt], None)"
  using load_data_amount_error[OF assms] by (simp add: app_load_error)

theorem unparsable_amount_fails_load_witness:
  "has_sale_date
     \<lparr>cells = \<lparr>rows = [\<lparr>raw_date = ascii ''2025-01-01'', raw_quantity = Fin 5,
                         raw_amount = ascii ''1,200'', raw_dept_code = ascii ''1'',
                         raw_dept_name = ascii ''A'', raw_order_code = ascii ''7'',
                         raw_order_name = ascii ''web'', raw_product_code = ascii ''P-1'',
                         raw_product_name = ascii ''cup''\<rparr>,
                        \<lparr>raw_date = ascii ''2025-01-02'', raw_quantity = Fin 3,
                         raw_amount = ascii ''1,2x0'', raw_dept_code = ascii ''1'',
                         raw_dept_name = ascii ''A'', raw_order_code = ascii ''7'',
                         raw_order_name = ascii ''web'', raw_product_code = ascii ''P-1'',
                         raw_product_name = ascii ''cup''\<rparr>],
                has_dept = True, has_order = True, has_product = True\<rparr>,
      has_sale_date = True, has_quantity = True, has_net_amount = True\<rparr>
   \<and> py_float (replace_char 44 [] (astype_str (ascii ''1,2x0''))) = None
   \<and> load_data (\<lambda>s. Some 10) py_float
        (Readable
           \<lparr>cells = \<lparr>rows = [\<lparr>raw_date = ascii ''2025-01-01'', raw_quantity = Fin 5,
                               raw_amount = ascii ''1,200'', raw_dept_code = ascii ''1'',
                               raw_dept_name = ascii ''A'', raw_order_code = ascii ''7'',
                               raw_order_name = ascii ''web'', raw_product_code = ascii ''P-1'',
                               raw_product_name = ascii ''cup''\<rparr>,
                              \<lparr>raw_date = ascii ''2025-01-02'', raw_quantity = Fin 3,
                               raw_amount = ascii ''1,2x0'', raw_dept_code = ascii ''1'',
                               raw_dept_name = ascii ''A'', raw_order_code = ascii ''7'',
                               raw_order_name = ascii ''web'', raw_product_code = ascii ''P-1'',
                               raw_product_name = ascii ''cup''\<rparr>],
                      has_dept = True, has_order = True, has_product = True\<rparr>,
            has_sale_date = True, has_quantity = True, has_net_amount = True\<rparr>)
      = Inl (LoadError AmountValueError)"
proof -
  let ?file = "\<lparr>cells = \<lparr>rows = [\<lparr>raw_date = ascii ''2025-01-01'', raw_quantity = Fin 5,
                               raw_amount = ascii ''1,200'', raw_dept_code = ascii ''1'',
                               raw_dept_name = ascii ''A'', raw_order_code = ascii ''7'',
                               raw_order_name = ascii ''web'', raw_product_code = ascii ''P-1'',
                               raw_product_name = ascii ''cup''\<rparr>,
                              \<lparr>raw_date = ascii ''2025-01-02'', raw_quantity = Fin 3,
                               raw_amount = ascii ''1,2x0'', raw_dept_code = ascii ''1'',
                               raw_dept_name = ascii ''A'', raw_order_code = ascii ''7'',
                               raw_order_name = ascii ''web'', raw_product_code = ascii ''P-1'',
                               raw_product_name = ascii ''cup''\<rparr>],
                      has_dept = True, has_order = True, has_product = True\<rparr>,
            has_sale_date = True, has_quantity = True, has_net_amount = True\<rparr>"
  have f: "py_float (replace_char 44 [] (astype_str (ascii ''1,2x0''))) = None"
    by (simp add: astype_str_def na_values_def replace_char_def string_defs float_defs)
  then have h: "\<exists>r \<in> set (rows (cells ?file)).
      py_float (replace_char 44 [] (astype_str (raw_amount r))) = None"
    by simp
  have c: "has_sale_date ?file" "has_net_amount ?file" by simp_all
  from unparsable_amount_fails_load[OF c h, of "\<lambda>s. Some 10"]
  have "load_data (\<lambda>s. Some 10) py_float (Readable ?file) = Inl (LoadError AmountValueError)"
    by blast
  with c(1) f show ?thesis by (intro conjI)
qed

text \<open>
  C9 as stated fails: of two rows with the amounts \<open>1,200\<close> and \<open>abc\<close> the first is
  well formed, yet the load returns nothing and the run shows the load error only.
\<close>

theorem unparsable_amount_counterexample:
  "py_float (replace_char 44 [] (astype_str (ascii ''1,200''))) = Some (Fin 1200)
   \<and> py_float (replace_char 44 [] (astype_str (ascii ''abc''))) = None
   \<and> app (\<lambda>s. Some 10) py_float
        \<lparr>prophet_yhat = (\<lambda>s d. 1), arima_step = (\<lambda>y k. 1), linreg_value = (\<lambda>xy x. 1),
         fit_error = (\<lambda>c. None)\<rparr>
        (Some (Readable
           \<lparr>cells = \<lparr>rows = [\<lparr>raw_date = ascii ''2025-01-01'', raw_quantity = Fin 5,
                               raw_amount = ascii ''1,200'', raw_dept_code = ascii ''1'',
                               raw_dept_name = ascii ''A'', raw_order_code = ascii ''7'',
                               raw_order_name = ascii ''web'', raw_product_code = ascii ''P-1'',
                               raw_product_name = ascii ''cup''\<rparr>,
                              \<lparr>raw_date = ascii ''2025-01-02'', raw_quantity = Fin 3,
                               raw_amount = ascii ''abc'', raw_dept_code = ascii ''1'',
                               raw_dept_name = ascii ''A'', raw_order_code = ascii ''7'',
                               raw_order_name = ascii ''web'', raw_product_code = ascii ''P-1'',
                               raw_product_name = ascii ''cup''\<rparr>],
                      has_dept = True, has_order = True, has_product = True\<rparr>,
            has_sale_date = True, has_quantity = True, has_net_amount = True\<rparr>))
        \<lparr>selected_departments = [all_departments], selected_order_methods = [all_order_methods],
         selected_products = [all_products]\<rparr>
        \<lparr>selected_model = LinearRegression, prophet_available = False,
         arima_available = False, data_end_date = ymd 2025 1 1,
         start_choice = DaysAfterLast 1, end_date = ymd 2025 1 31, run_forecast = True\<rparr>
      = Inr ([LoadError AmountValueError, UploadPrompt], None)"
proof -
  have f: "py_float (replace_char 44 [] (astype_str (ascii ''1,200''))) = Some (Fin 1200)"
    "py_float (replace_char 44 [] (astype_str (ascii ''abc''))) = None"
    by (simp_all add: astype_str_def na_values_def replace_char_def string_defs float_defs)
  then show ?thesis by (simp add: app_def load_data_def)
qed

text \<open>
  A net-amount cell \<open>n/a\<close> is a missing-value marker: it arrives as \<open>'nan'\<close>, which
  \<open>float\<close> reads as NaN, and the load succeeds; the sum of the day skips the value.
\<close>

lemma missing_amount_loads:
  "astype_str (ascii ''n/a'') = ascii ''nan''
   \<and> py_float (replace_char 44 [] (astype_str (ascii ''n/a''))) = Some NaN
   \<and> map_sum id fst
        (load_data (\<lambda>s. if s = ascii ''2025-01-01'' then Some (ymd 2025 1 1) else None) py_float
           (Readable
              \<lparr>cells = \<lparr>rows = [\<lparr>raw_date = ascii ''2025-01-01'', raw_quantity = Fin 5,
                                  raw_amount = ascii ''1,200'', raw_dept_code = ascii ''1'',
                                  raw_dept_name = ascii ''A'', raw_order_code = ascii ''7'',
                                  raw_order_name = ascii ''web'', raw_product_code = ascii ''P-1'',
                                  raw_product_name = ascii ''cup''\<rparr>,
                                 \<lparr>raw_date = ascii ''2025-01-01'', raw_quantity = Fin 3,
                                  raw_amount = ascii ''n/a'', raw_dept_code = ascii ''1'',
                                  raw_dept_name = ascii ''A'', raw_order_code = ascii ''7'',
                                  raw_order_name = ascii ''web'', raw_product_code = ascii ''P-1'',
                                  raw_product_name = ascii ''cup''\<rparr>],
                         has_dept = True, has_order = True, has_product = True\<rparr>,
               has_sale_date = True, has_quantity = True, has_net_amount = True\<rparr>))
      = Inr [\<lparr>day = ymd 2025 1 1, qty = Fin 8, amt = Fin 1200\<rparr>]"
proof -
  have a: "astype_str (ascii ''n/a'') = ascii ''nan''"
    "astype_str (ascii ''1,200'') = ascii ''1,200''"
    "astype_str (ascii ''2025-01-01'') = ascii ''2025-01-01''"
    by (simp_all add: astype_str_def na_values_def ascii_def)
  have f: "py_float (replace_char 44 [] (ascii ''nan'')) = Some NaN"
    "py_float (replace_char 44 [] (ascii ''1,200'')) = Some (Fin 1200)"
    by (simp_all add: replace_char_def string_defs float_defs)
  have d: "parse_date (\<lambda>s. if s = ascii ''2025-01-01'' then Some (ymd 2025 1 1) else None)
             (ascii ''2025-01-01'') = Some (ymd 2025 1 1)"
    by (simp add: parse_date_def replace_char_def ascii_def)
  show ?thesis
    by (simp add: load_data_def a f d typed_row_def aggregate_defs)
qed

lemma aggregate_empty: "daily_aggregate [] = []" "filter_by_product [] sel = []"
  by (simp_all add: filter_by_product_def aggregate_defs)

text \<open>
  With product columns present, an empty series after the filters is reported by the
  warning and becomes \<open>None\<close>, so the forecast part is not entered.
\<close>

lemma select_daily_product_path:
  assumes "has_product raw_data" "select_daily float_of raw_data sel = Inr (msgs, d)"
  shows "(d = None \<longleftrightarrow> NoDataWarning \<in> set msgs) \<and> d \<noteq> Some []"
  using assms
  by (auto simp: select_daily_def Let_def split: sum.splits if_splits)

lemma app_no_data:
  assumes "load_data to_datetime float_of file = Inr (daily_all, raw_data)" "daily_all \<noteq> []"
      and "select_daily float_of raw_data sel = Inr (msgs, None)"
  shows "app to_datetime float_of bk (Some file) sel ui = Inr (msgs, None)"
  using assms by (simp add: app_def)

text \<open>
  C8 on data without order-method and product columns, for a department code that
  contains \<open>' - '\<close>. The label \<open>'A - 1 - X'\<close> is in the department menu; selecting it
  leaves no record, the series is empty and no forecast is made, but the messages shown
  are the two notes about missing columns only: the warning about no data, which the
  path with product columns gives, is missing.
\<close>

theorem no_data_without_product_columns:
  "sort_by_code py_float
     ([all_departments] @ unique (map dept_label
        [\<lparr>sale_date = Some (ymd 2025 1 1), quantity = Fin 5, amount = Fin 500,
          dept_code = ascii ''A - 1'', dept_name = ascii ''X'',
          order_code = ascii ''-'', order_name = ascii ''-'',
          product_code = ascii ''-'', product_name = ascii ''-''\<rparr>])) True
     = Inr [all_departments, ascii ''A - 1 - X'']
   \<and> filter_by_department
        [\<lparr>sale_date = Some (ymd 2025 1 1), quantity = Fin 5, amount = Fin 500,
          dept_code = ascii ''A - 1'', dept_name = ascii ''X'',
          order_code = ascii ''-'', order_name = ascii ''-'',
          product_code = ascii ''-'', product_name = ascii ''-''\<rparr>]
        [ascii ''A - 1 - X''] = []
   \<and> app (\<lambda>s. if s = ascii ''2025-01-01'' then Some (ymd 2025 1 1) else None) py_float
        \<lparr>prophet_yhat = (\<lambda>s d. 1), arima_step = (\<lambda>y k. 1), linreg_value = (\<lambda>xy x. 1),
         fit_error = (\<lambda>c. None)\<rparr>
        (Some (Readable
           \<lparr>cells = \<lparr>rows = [\<lparr>raw_date = [50, 48, 50, 53, 24180, 48, 49, 26376, 48, 49, 26085],
                               raw_quantity = Fin 5, raw_amount = ascii ''500'',
                               raw_dept_code = ascii ''A - 1'', raw_dept_name = ascii ''X'',
                               raw_order_code = ascii ''-'', raw_order_name = ascii ''-'',
                               raw_product_code = ascii ''-'', raw_product_name = ascii ''-''\<rparr>],
                      has_dept = True, has_order = False, has_product = False\<rparr>,
            has_sale_date = True, has_quantity = True, has_net_amount = True\<rparr>))
        \<lparr>selected_departments = [ascii ''A - 1 - X''], selected_order_methods = [],
         selected_products = []\<rparr>
        \<lparr>selected_model = LinearRegression, prophet_available = False,
         arima_available = False, data_end_date = ymd 2025 1 1,
         start_choice = DaysAfterLast 1, end_date = ymd 2025 1 31, run_forecast = True\<rparr>
      = Inr ([OrderColumnsMissing, ProductColumnsMissing], None)"
proof -
  let ?r = "\<lparr>sale_date = Some (ymd 2025 1 1), quantity = Fin 5, amount = Fin 500,
          dept_code = ascii ''A - 1'', dept_name = ascii ''X'',
          order_code = ascii ''-'', order_name = ascii ''-'',
          product_code = ascii ''-'', product_name = ascii ''-''\<rparr>"
  let ?tdt = "\<lambda>s. if s = ascii ''2025-01-01'' then Some (ymd 2025 1 1) else None"
  let ?raw = "\<lparr>raw_date = [50, 48, 50, 53, 24180, 48, 49, 26376, 48, 49, 26085],
                        raw_quantity = Fin 5, raw_amount = ascii ''500'',
                        raw_dept_code = ascii ''A - 1'', raw_dept_name = ascii ''X'',
                        raw_order_code = ascii ''-'', raw_order_name = ascii ''-'',
                        raw_product_code = ascii ''-'', raw_product_name = ascii ''-''\<rparr>"
  let ?file = "\<lparr>cells = \<lparr>rows = [?raw], has_dept = True, has_order = False,
                          has_product = False\<rparr>,
                has_sale_date = True, has_quantity = True, has_net_amount = True\<rparr>"
  let ?sel = "\<lparr>selected_departments = [ascii ''A - 1 - X''], selected_order_methods = [],
         selected_products = []\<rparr>"
  have lab: "dept_label ?r = ascii ''A - 1 - X''" by (simp add: string_defs)
  have key: "extract_code py_float (ascii ''A - 1 - X'') = Inr 0"
    by (simp add: extract_code_def string_defs float_defs)
  have menu: "sort_by_code py_float ([all_departments] @ unique (map dept_label [?r])) True
      = Inr [all_departments, ascii ''A - 1 - X'']"
    by (simp add: lab sort_by_code_def sorted_by_def key)
  have flt: "filter_by_department [?r] [ascii ''A - 1 - X''] = []"
    by (simp add: filter_by_department_def string_defs)
  have str: "astype_str (ascii ''500'') = ascii ''500''"
    "astype_str (ascii ''A - 1'') = ascii ''A - 1''" "astype_str (ascii ''X'') = ascii ''X''"
    "astype_str (ascii ''-'') = ascii ''-''"
    "astype_str [50, 48, 50, 53, 24180, 48, 49, 26376, 48, 49, 26085]
       = [50, 48, 50, 53, 24180, 48, 49, 26376, 48, 49, 26085]"
    by (simp_all add: astype_str_def na_values_def ascii_def)
  have amt: "py_float (replace_char 44 [] (ascii ''500'')) = Some (Fin 500)"
    by (simp add: replace_char_def string_defs float_defs)
  have dt: "parse_date ?tdt [50, 48, 50, 53, 24180, 48, 49, 26376, 48, 49, 26085]
      = Some (ymd 2025 1 1)"
    by (simp add: parse_date_def replace_char_def ascii_def)
  have row: "typed_row ?tdt ?raw (Fin 500) = ?r"
    by (simp add: typed_row_def dt str)
  have agg: "daily_aggregate [?r] = [\<lparr>day = ymd 2025 1 1, qty = Fin 5, amt = Fin 500\<rparr>]"
    by (simp add: aggregate_defs)
  have load: "load_data ?tdt py_float (Readable ?file)
      = Inr ([\<lparr>day = ymd 2025 1 1, qty = Fin 5, amt = Fin 500\<rparr>],
             \<lparr>rows = [?r], has_dept = True, has_order = False, has_product = False\<rparr>)"
    by (simp add: load_data_def str amt row agg del: typed_row_def)
  have sel: "select_daily py_float
        \<lparr>rows = [?r], has_dept = True, has_order = False, has_product = False\<rparr> ?sel
      = Inr ([OrderColumnsMissing, ProductColumnsMissing], Some [])"
    using menu flt
    by (simp add: select_daily_def aggregate_empty label_not_sentinel[THEN not_sym]
        ascii_def all_departments_def)
  have "app ?tdt py_float bk (Some (Readable ?file)) ?sel ui
      = Inr ([OrderColumnsMissing, ProductColumnsMissing], None)" for bk ui
    by (simp add: app_def load sel)
  with menu flt show ?thesis by (intro conjI)
qed

end
